theory Spec2Isabelle
  imports Main "HOL-Library.Sublist"
begin

section \<open>Conversation memory (\<open>ConversationManager\<close>)\<close>

text \<open>
  The manager keeps a JavaScript \<open>Map\<close> from thread ids to array objects.  Since
  \<open>getHistory\<close> hands out the array object itself, arrays are modelled as references
  into an explicit heap: \<open>arrays s r\<close> is the content of the array object \<open>r\<close>, and
  \<open>next_ref s\<close> is the first reference that no array literal has produced yet.
  \<open>maxHistory\<close> is a message count and is modelled as a natural number.  The clock
  read by \<open>_getTimestamp\<close> is an input of \<open>addMessage\<close>.
\<close>

type_synonym ref = nat

record message =
  role :: string
  content :: string
  timestamp :: string

record manager =
  maxHistory :: nat
  conversations :: "string \<rightharpoonup> ref"
  arrays :: "ref \<Rightarrow> message list"
  next_ref :: ref

text \<open>\<open>new ConversationManager(maxHistory)\<close>: an empty map.\<close>

definition new_manager :: "nat \<Rightarrow> manager" where
  "new_manager n =
     \<lparr>maxHistory = n, conversations = Map.empty, arrays = (\<lambda>_. []), next_ref = 0\<rparr>"

text \<open>The array literal \<open>[]\<close>: a fresh, empty array object.\<close>

definition new_array :: "manager \<Rightarrow> ref \<times> manager" where
  "new_array s =
     (next_ref s, s\<lparr>arrays := (arrays s)(next_ref s := []), next_ref := Suc (next_ref s)\<rparr>)"

text \<open>
  In-place mutation of the array object \<open>r\<close>, by whoever holds the reference:
  \<open>push\<close>, \<open>shift\<close> (which leaves an empty array empty) and, for callers, any other
  change of the content.
\<close>

definition array_modify :: "ref \<Rightarrow> (message list \<Rightarrow> message list) \<Rightarrow> manager \<Rightarrow> manager" where
  "array_modify r f s = s\<lparr>arrays := (arrays s)(r := f (arrays s r))\<rparr>"

definition array_push :: "ref \<Rightarrow> message \<Rightarrow> manager \<Rightarrow> manager" where
  "array_push r m = array_modify r (\<lambda>xs. xs @ [m])"

definition array_shift :: "ref \<Rightarrow> manager \<Rightarrow> manager" where
  "array_shift r = array_modify r tl"

definition addMessage :: "string \<Rightarrow> string \<Rightarrow> string \<Rightarrow> string \<Rightarrow> manager \<Rightarrow> manager" where
  "addMessage threadId rl cnt now s =
     (let (threadHistory, s1) =
            (case conversations s threadId of
               None \<Rightarrow>
                 (let (r, s') = new_array s
                  in (r, s'\<lparr>conversations := (conversations s')(threadId \<mapsto> r)\<rparr>))
             | Some r \<Rightarrow> (r, s));
          msg = \<lparr>role = rl, content = cnt, timestamp = now\<rparr>;
          s2 = array_push threadHistory msg s1
      in if length (arrays s2 threadHistory) > maxHistory s2
         then array_shift threadHistory s2
         else s2)"

text \<open>
  \<open>getHistory\<close> returns \<open>this.conversations.get(threadId) || []\<close>: the stored array
  object itself for a known thread (an array is always truthy), a fresh empty array
  otherwise.
\<close>

definition getHistory :: "string \<Rightarrow> manager \<Rightarrow> ref \<times> manager" where
  "getHistory threadId s =
     (case conversations s threadId of
        Some r \<Rightarrow> (r, s)
      | None \<Rightarrow> new_array s)"

definition clearHistory :: "string \<Rightarrow> manager \<Rightarrow> manager" where
  "clearHistory threadId s = s\<lparr>conversations := (conversations s)(threadId := None)\<rparr>"

text \<open>What a caller reads in the array that \<open>getHistory\<close> returns.\<close>

definition history :: "string \<Rightarrow> manager \<Rightarrow> message list" where
  "history threadId s = (let (r, s') = getHistory threadId s in arrays s' r)"

text \<open>A run of appends to one thread; each item is role, content and clock reading.\<close>

fun addMessages :: "string \<Rightarrow> (string \<times> string \<times> string) list \<Rightarrow> manager \<Rightarrow> manager" where
  "addMessages threadId [] s = s"
| "addMessages threadId ((rl, cnt, now) # ms) s =
     addMessages threadId ms (addMessage threadId rl cnt now s)"

definition mk_message :: "string \<times> string \<times> string \<Rightarrow> message" where
  "mk_message t = (case t of (rl, cnt, now) \<Rightarrow> \<lparr>role = rl, content = cnt, timestamp = now\<rparr>)"

text \<open>
  Invariants.  \<open>heap_ok\<close>: every stored reference has been allocated and no two
  threads share an array.  \<open>bounded\<close>: no stored history is longer than
  \<open>maxHistory\<close>.
\<close>

definition heap_ok :: "manager \<Rightarrow> bool" where
  "heap_ok s \<longleftrightarrow>
     (\<forall>k r. conversations s k = Some r \<longrightarrow> r < next_ref s) \<and>
     (\<forall>k k' r. conversations s k = Some r \<longrightarrow> conversations s k' = Some r \<longrightarrow> k = k')"

definition bounded :: "manager \<Rightarrow> bool" where
  "bounded s \<longleftrightarrow> (\<forall>k r. conversations s k = Some r \<longrightarrow> length (arrays s r) \<le> maxHistory s)"

text \<open>The last \<open>n\<close> elements of a list (all of it when it is shorter).\<close>

definition keep :: "nat \<Rightarrow> 'a list \<Rightarrow> 'a list" where
  "keep n xs = drop (length xs - n) xs"

section \<open>\<open>JSON.parse\<close>\<close>

text \<open>
  The built-in \<open>JSON.parse\<close>, as far as the program depends on it: whether a text is
  one JSON value (the grammar of ECMA-404, surrounded by optional white space) and
  which value.  The result is the syntax tree: a number keeps its literal, a string
  keeps its characters between the quotes with escape sequences undecoded.  The text
  is read by a lexer, one character at a time, and the tokens by a parser with an
  explicit stack of the arrays and objects that are still open.
\<close>

datatype json =
    JNull
  | JBool bool
  | JNumber string
  | JString string
  | JArray "json list"
  | JObject "(string \<times> json) list"

datatype jtoken =
    TLBrace | TRBrace | TLBracket | TRBracket | TColon | TComma
  | TString string | TNumber string | TLit json

datatype num_state = NMinus | NZero | NInt | NDot | NFrac | NExp | NExpSign | NExpDigits

datatype lex_state =
    LIdle
  | LStr string
  | LEsc string
  | LHex string nat
  | LNum num_state string
  | LWord string json

definition is_digit :: "char \<Rightarrow> bool" where
  "is_digit c \<longleftrightarrow> c \<in> set ''0123456789''"

definition is_hex :: "char \<Rightarrow> bool" where
  "is_hex c \<longleftrightarrow> c \<in> set ''0123456789abcdefABCDEF''"

definition is_ws :: "char \<Rightarrow> bool" where
  "is_ws c \<longleftrightarrow> c \<in> {CHR '' '', CHR 0x09, CHR 0x0A, CHR 0x0D}"

definition lex_idle :: "char \<Rightarrow> jtoken list \<Rightarrow> (lex_state \<times> jtoken list) option" where
  "lex_idle c ts =
     (if is_ws c then Some (LIdle, ts)
      else if c = CHR ''{'' then Some (LIdle, TLBrace # ts)
      else if c = CHR ''}'' then Some (LIdle, TRBrace # ts)
      else if c = CHR ''['' then Some (LIdle, TLBracket # ts)
      else if c = CHR '']'' then Some (LIdle, TRBracket # ts)
      else if c = CHR '':'' then Some (LIdle, TColon # ts)
      else if c = CHR '','' then Some (LIdle, TComma # ts)
      else if c = CHR 0x22 then Some (LStr [], ts)
      else if c = CHR ''-'' then Some (LNum NMinus [c], ts)
      else if c = CHR ''0'' then Some (LNum NZero [c], ts)
      else if is_digit c then Some (LNum NInt [c], ts)
      else if c = CHR ''t'' then Some (LWord ''rue'' (JBool True), ts)
      else if c = CHR ''f'' then Some (LWord ''alse'' (JBool False), ts)
      else if c = CHR ''n'' then Some (LWord ''ull'' JNull, ts)
      else None)"

definition num_next :: "num_state \<Rightarrow> char \<Rightarrow> num_state option" where
  "num_next st c =
     (case st of
        NMinus \<Rightarrow> (if c = CHR ''0'' then Some NZero else if is_digit c then Some NInt else None)
      | NZero \<Rightarrow> (if c = CHR ''.'' then Some NDot
                  else if c = CHR ''e'' \<or> c = CHR ''E'' then Some NExp else None)
      | NInt \<Rightarrow> (if is_digit c then Some NInt
                 else if c = CHR ''.'' then Some NDot
                 else if c = CHR ''e'' \<or> c = CHR ''E'' then Some NExp else None)
      | NDot \<Rightarrow> (if is_digit c then Some NFrac else None)
      | NFrac \<Rightarrow> (if is_digit c then Some NFrac
                  else if c = CHR ''e'' \<or> c = CHR ''E'' then Some NExp else None)
      | NExp \<Rightarrow> (if is_digit c then Some NExpDigits
                 else if c = CHR ''+'' \<or> c = CHR ''-'' then Some NExpSign else None)
      | NExpSign \<Rightarrow> (if is_digit c then Some NExpDigits else None)
      | NExpDigits \<Rightarrow> (if is_digit c then Some NExpDigits else None))"

definition num_complete :: "num_state \<Rightarrow> bool" where
  "num_complete st \<longleftrightarrow> st \<in> {NZero, NInt, NFrac, NExpDigits}"

fun lex_step :: "lex_state \<times> jtoken list \<Rightarrow> char \<Rightarrow> (lex_state \<times> jtoken list) option" where
  "lex_step (LIdle, ts) c = lex_idle c ts"
| "lex_step (LStr acc, ts) c =
     (if c = CHR 0x22 then Some (LIdle, TString (rev acc) # ts)
      else if c = CHR 0x5C then Some (LEsc (c # acc), ts)
      else if (of_char c :: nat) < 32 then None
      else Some (LStr (c # acc), ts))"
| "lex_step (LEsc acc, ts) c =
     (if c \<in> {CHR 0x22, CHR 0x5C, CHR ''/'', CHR ''b'', CHR ''f'', CHR ''n'', CHR ''r'', CHR ''t''}
      then Some (LStr (c # acc), ts)
      else if c = CHR ''u'' then Some (LHex (c # acc) 4, ts)
      else None)"
| "lex_step (LHex acc n, ts) c =
     (if is_hex c then Some (if n \<le> 1 then LStr (c # acc) else LHex (c # acc) (n - 1), ts)
      else None)"
| "lex_step (LNum st acc, ts) c =
     (case num_next st c of
        Some st' \<Rightarrow> Some (LNum st' (c # acc), ts)
      | None \<Rightarrow> if num_complete st then lex_idle c (TNumber (rev acc) # ts) else None)"
| "lex_step (LWord w v, ts) c =
     (case w of
        [] \<Rightarrow> None
      | x # xs \<Rightarrow>
          if c \<noteq> x then None
          else if xs = [] then Some (LIdle, TLit v # ts)
          else Some (LWord xs v, ts))"

fun lex_run :: "lex_state \<times> jtoken list \<Rightarrow> string \<Rightarrow> (lex_state \<times> jtoken list) option" where
  "lex_run st [] = Some st"
| "lex_run st (c # cs) = (case lex_step st c of None \<Rightarrow> None | Some st' \<Rightarrow> lex_run st' cs)"

definition tokens :: "string \<Rightarrow> jtoken list option" where
  "tokens txt =
     (case lex_run (LIdle, []) txt of
        Some (LIdle, ts) \<Rightarrow> Some (rev ts)
      | Some (LNum st acc, ts) \<Rightarrow>
          if num_complete st then Some (rev (TNumber (rev acc) # ts)) else None
      | _ \<Rightarrow> None)"

datatype frame = InArray "json list" | InObject "(string \<times> json) list" string

datatype pstate =
    PValue
  | PValueOrClose
  | PKeyOrClose
  | PKey "(string \<times> json) list"
  | PColon "(string \<times> json) list" string
  | PGot json

fun value_start :: "jtoken \<Rightarrow> frame list \<Rightarrow> (pstate \<times> frame list) option" where
  "value_start (TString s) st = Some (PGot (JString s), st)"
| "value_start (TNumber n) st = Some (PGot (JNumber n), st)"
| "value_start (TLit v) st = Some (PGot v, st)"
| "value_start TLBrace st = Some (PKeyOrClose, st)"
| "value_start TLBracket st = Some (PValueOrClose, st)"
| "value_start _ st = None"

fun pstep :: "pstate \<times> frame list \<Rightarrow> jtoken \<Rightarrow> (pstate \<times> frame list) option" where
  "pstep (PValue, st) t = value_start t st"
| "pstep (PValueOrClose, st) t =
     (if t = TRBracket then Some (PGot (JArray []), st) else value_start t (InArray [] # st))"
| "pstep (PKeyOrClose, st) t =
     (case t of
        TRBrace \<Rightarrow> Some (PGot (JObject []), st)
      | TString k \<Rightarrow> Some (PColon [] k, st)
      | _ \<Rightarrow> None)"
| "pstep (PKey ms, st) t = (case t of TString k \<Rightarrow> Some (PColon ms k, st) | _ \<Rightarrow> None)"
| "pstep (PColon ms k, st) t = (if t = TColon then Some (PValue, InObject ms k # st) else None)"
| "pstep (PGot v, []) t = None"
| "pstep (PGot v, InArray es # st) t =
     (case t of
        TComma \<Rightarrow> Some (PValue, InArray (v # es) # st)
      | TRBracket \<Rightarrow> Some (PGot (JArray (rev (v # es))), st)
      | _ \<Rightarrow> None)"
| "pstep (PGot v, InObject ms k # st) t =
     (case t of
        TComma \<Rightarrow> Some (PKey ((k, v) # ms), st)
      | TRBrace \<Rightarrow> Some (PGot (JObject (rev ((k, v) # ms))), st)
      | _ \<Rightarrow> None)"

fun prun :: "pstate \<times> frame list \<Rightarrow> jtoken list \<Rightarrow> (pstate \<times> frame list) option" where
  "prun st [] = Some st"
| "prun st (t # ts) = (case pstep st t of None \<Rightarrow> None | Some st' \<Rightarrow> prun st' ts)"

definition JSON_parse :: "string \<Rightarrow> json option" where
  "JSON_parse txt =
     (case tokens txt of
        None \<Rightarrow> None
      | Some ts \<Rightarrow>
          (case prun (PValue, []) ts of
             Some (PGot v, []) \<Rightarrow> Some v
           | _ \<Rightarrow> None))"

section \<open>Utilities (agent_utils.js)\<close>

datatype api_content = Text string | WithImage api_content string

record api_message =
  api_role :: string
  api_content :: api_content

definition nl :: string where "nl = [CHR 0x0A]"

text \<open>JavaScript truthiness of a value that is a string, \<open>null\<close> or \<open>undefined\<close>.\<close>

fun truthy :: "string option \<Rightarrow> bool" where
  "truthy None = False"
| "truthy (Some s) = (s \<noteq> [])"

definition formatSystemPrompt :: "string option \<Rightarrow> string option \<Rightarrow> string" where
  "formatSystemPrompt systemMessage projectSystemMessage =
     (let basePrompt = ''You are a helpful AI assistant.'';
          basePrompt = (case systemMessage of
                          Some m \<Rightarrow> if m \<noteq> [] then m else basePrompt
                        | None \<Rightarrow> basePrompt)
      in case projectSystemMessage of
           Some p \<Rightarrow> if p \<noteq> [] then basePrompt @ nl @ nl @ ''Project Context: '' @ p
                     else basePrompt
         | None \<Rightarrow> basePrompt)"

text \<open>The \<open>for ... of\<close> loop of \<open>formatMessagesForOpenAI\<close>, pushing onto \<open>messages\<close>.\<close>

fun push_history :: "message list \<Rightarrow> api_message list \<Rightarrow> api_message list" where
  "push_history [] messages = messages"
| "push_history (msg # rest) messages =
     push_history rest (messages @ [\<lparr>api_role = role msg, api_content = Text (content msg)\<rparr>])"

definition formatMessagesForOpenAI ::
    "string \<Rightarrow> message list \<Rightarrow> string \<Rightarrow> api_message list" where
  "formatMessagesForOpenAI systemPrompt conversationHistory currentMessage =
     (let messages = [\<lparr>api_role = ''system'', api_content = Text systemPrompt\<rparr>];
          messages = push_history conversationHistory messages
      in messages @ [\<lparr>api_role = ''user'', api_content = Text currentMessage\<rparr>])"

section \<open>Stream assembly (the loop of processMessage)\<close>

text \<open>
  A chunk of the completion stream, by what the loop reads of it:
  \<open>chunk.choices[0]?.delta?.content\<close>, \<open>chunk.choices[0]?.delta?.tool_calls\<close> and
  \<open>chunk.usage\<close>, each absent (\<open>None\<close>) or present.  A tool-call delta has its
  \<open>index\<close>, its \<open>id\<close> and its \<open>function\<close> part with \<open>name\<close> and \<open>arguments\<close>.  An
  entry of \<open>functionCalls\<close> keeps \<open>id\<close>, \<open>function.name\<close> and \<open>function.arguments\<close>.
\<close>

record usage =
  prompt_tokens :: nat
  completion_tokens :: nat
  total_tokens :: nat

record function_delta =
  fd_name :: "string option"
  fd_arguments :: "string option"

record tool_call_delta =
  tc_index :: nat
  tc_id :: "string option"
  tc_function :: "function_delta option"

record chunk =
  delta_content :: "string option"
  delta_tool_calls :: "tool_call_delta list option"
  chunk_usage :: "usage option"

record function_call =
  fc_id :: "string option"
  fc_name :: "string option"
  fc_arguments :: string

text \<open>
  What \<open>streamChunk\<close> is called with, one constructor for each call site:
  \<^item> \<open>Content c\<close>: the text fragment \<open>c\<close> of a chunk;
  \<^item> \<open>Calling n\<close>: the "Calling function: n" announcement of a new tool call;
  \<^item> \<open>Parameters v\<close>: the "Function parameters:" progress message with the parsed value;
  \<^item> \<open>Processing n\<close>, \<open>Executing\<close>, \<open>LoadingStart\<close>, \<open>LoadingEnd\<close>, \<open>Completed\<close>,
    \<open>ImageResult t\<close>: the messages of the function handler, in the order it sends them;
  \<^item> \<open>MissingKey\<close>: the missing-key message.
\<close>

datatype emission =
    Content string
  | Calling "string option"
  | Parameters json
  | Processing "string option"
  | Executing
  | LoadingStart
  | LoadingEnd
  | Completed
  | ImageResult string
  | MissingKey

text \<open>
  Errors thrown: a \<open>TypeError\<close> for reading the named property of \<open>undefined\<close> or
  \<open>null\<close>, the \<open>SyntaxError\<close> of \<open>JSON.parse\<close> on the given text, and
  \<open>new Error(message)\<close> (also standing for the errors collaborators raise).
\<close>

datatype js_error =
    TypeError string
  | SyntaxError string
  | Error string

record assembly =
  fullResponse :: string
  usageInfo :: "usage option"
  functionCalls :: "function_call list"
  sink :: "emission list"

definition init_assembly :: assembly where
  "init_assembly = \<lparr>fullResponse = [], usageInfo = None, functionCalls = [], sink = []\<rparr>"

text \<open>
  One tool-call delta.  A new slot is pushed when \<open>functionCalls.length <= index\<close>;
  a non-empty argument fragment is appended to \<open>functionCalls[index]\<close>, which throws
  when that slot does not exist; the progress message is sent when the accumulated text
  ends with a double quote, \<open>}\<close> or \<open>]\<close> and \<open>JSON.parse\<close> accepts it.
\<close>

definition ends_with_closer :: "string \<Rightarrow> bool" where
  "ends_with_closer s \<longleftrightarrow> s \<noteq> [] \<and> last s \<in> {CHR 0x22, CHR ''}'', CHR '']''}"

definition ensure_slot :: "tool_call_delta \<Rightarrow> function_delta \<Rightarrow> assembly \<Rightarrow> assembly" where
  "ensure_slot toolCall f a =
     (if length (functionCalls a) \<le> tc_index toolCall
      then a\<lparr>functionCalls := functionCalls a @
                 [\<lparr>fc_id = tc_id toolCall, fc_name = fd_name f, fc_arguments = []\<rparr>],
             sink := sink a @ [Calling (fd_name f)]\<rparr>
      else a)"

definition progress :: "string \<Rightarrow> emission list" where
  "progress currentArgs =
     (if ends_with_closer currentArgs
      then (case JSON_parse currentArgs of Some parsedArgs \<Rightarrow> [Parameters parsedArgs] | None \<Rightarrow> [])
      else [])"

definition accumulate :: "nat \<Rightarrow> string \<Rightarrow> assembly \<Rightarrow> js_error \<times> assembly + assembly" where
  "accumulate i frag a =
     (if length (functionCalls a) \<le> i then Inl (TypeError ''function'', a)
      else
        let slot = functionCalls a ! i;
            currentArgs = fc_arguments slot @ frag
        in Inr (a\<lparr>functionCalls := (functionCalls a)[i := slot\<lparr>fc_arguments := currentArgs\<rparr>],
                  sink := sink a @ progress currentArgs\<rparr>))"

definition on_tool_call :: "tool_call_delta \<Rightarrow> assembly \<Rightarrow> js_error \<times> assembly + assembly" where
  "on_tool_call toolCall a =
     (case tc_function toolCall of
        None \<Rightarrow> Inr a
      | Some f \<Rightarrow>
          let a1 = ensure_slot toolCall f a
          in if truthy (fd_arguments f)
             then accumulate (tc_index toolCall) (case fd_arguments f of Some s \<Rightarrow> s | None \<Rightarrow> []) a1
             else Inr a1)"

fun on_tool_calls :: "tool_call_delta list \<Rightarrow> assembly \<Rightarrow> js_error \<times> assembly + assembly" where
  "on_tool_calls [] a = Inr a"
| "on_tool_calls (toolCall # rest) a =
     (case on_tool_call toolCall a of
        Inl e \<Rightarrow> Inl e
      | Inr a' \<Rightarrow> on_tool_calls rest a')"

definition on_content :: "chunk \<Rightarrow> assembly \<Rightarrow> assembly" where
  "on_content c a =
     (case delta_content c of
        Some cnt \<Rightarrow>
          if cnt \<noteq> [] then a\<lparr>fullResponse := fullResponse a @ cnt, sink := sink a @ [Content cnt]\<rparr>
          else a
      | None \<Rightarrow> a)"

definition on_usage :: "chunk \<Rightarrow> assembly \<Rightarrow> assembly" where
  "on_usage c a = (case chunk_usage c of Some u \<Rightarrow> a\<lparr>usageInfo := Some u\<rparr> | None \<Rightarrow> a)"

definition on_chunk :: "chunk \<Rightarrow> assembly \<Rightarrow> js_error \<times> assembly + assembly" where
  "on_chunk c a =
     (let a1 = on_content c a
      in case (case delta_tool_calls c of
                 Some tcs \<Rightarrow> on_tool_calls tcs a1
               | None \<Rightarrow> Inr a1) of
           Inl e \<Rightarrow> Inl e
         | Inr a2 \<Rightarrow> Inr (on_usage c a2))"

fun consume :: "chunk list \<Rightarrow> assembly \<Rightarrow> js_error \<times> assembly + assembly" where
  "consume [] a = Inr a"
| "consume (c # cs) a =
     (case on_chunk c a of
        Inl e \<Rightarrow> Inl e
      | Inr a' \<Rightarrow> consume cs a')"

section \<open>Function handler (function_handler.js)\<close>

text \<open>
  The collaborators outside the repository are parameters: the chat-completion call
  (which fails, or delivers chunks and then ends or fails), the download and text
  extraction of a PDF, the image API, the message texts the JavaScript engine puts
  into its own errors, the text a template literal makes of \<open>args.prompt\<close>, and the
  two clock readings taken when the user turn and the assistant turn are stored.
  \<open>streamChunk\<close> is fire-and-forget: it records a message for the sink and does not
  throw, so the outer \<open>catch\<close> blocks of \<open>executeFunctionCall\<close> and
  \<open>processFunctionCalls\<close> are never entered.  The image API stands for
  \<open>client.images.generate\<close> on the request built from the parsed arguments
  (\<open>prompt\<close>, and \<open>size\<close>, \<open>quality\<close>, \<open>style\<close> with their defaults).
\<close>

record env =
  chat_completions :: "string \<Rightarrow> string \<Rightarrow> api_message list \<Rightarrow> string + chunk list \<times> string option"
  fetch_pdf_text :: "string \<Rightarrow> string + string"
  images_generate :: "string \<Rightarrow> json \<Rightarrow> string + string"
  engine_message :: "js_error \<Rightarrow> string"
  template_text :: "json \<Rightarrow> string"
  time_user :: string
  time_assistant :: string

text \<open>\<open>error.message\<close>: the text given to \<open>new Error\<close>, or the engine's own text.\<close>

fun error_message :: "env \<Rightarrow> js_error \<Rightarrow> string" where
  "error_message env (Error m) = m"
| "error_message env e = engine_message env e"

definition cross_mark :: string where "cross_mark = [CHR 0xE2, CHR 0x9D, CHR 0x8C]"
definition palette :: string where "palette = [CHR 0xF0, CHR 0x9F, CHR 0x8E, CHR 0xA8]"

type_synonym variables = "(string \<times> string) list"

text \<open>\<open>new Variables(variables).get(name)\<close> of the platform SDK: the value stored under the name, or \<open>null\<close>.\<close>

definition Variables_get :: "variables \<Rightarrow> string \<Rightarrow> string option" where
  "Variables_get vars name = map_of vars name"

text \<open>
  \<open>generateImageWithDALLE\<close>.  Its guard \<open>if (!variables)\<close> never fires here, the
  variables being a list, which is truthy even when empty.  Every error of its
  \<open>try\<close> block is rethrown with the prefix of its \<open>catch\<close> block.
\<close>

definition generateImageWithDALLE :: "env \<Rightarrow> json \<Rightarrow> variables \<Rightarrow> js_error + string" where
  "generateImageWithDALLE env args vars =
     (case (let openaiApiKey = Variables_get vars ''OPENAI_API_KEY''
            in if \<not> truthy openaiApiKey then Inl (Error ''OpenAI API key not found in variables'')
               else (case images_generate env (case openaiApiKey of Some k \<Rightarrow> k | None \<Rightarrow> []) args of
                       Inl m \<Rightarrow> Inl (Error m)
                     | Inr imageUrl \<Rightarrow> Inr imageUrl)) of
        Inl error \<Rightarrow> Inl (Error (''Error generating image with DALL-E: '' @ error_message env error))
      | Inr imageUrl \<Rightarrow> Inr imageUrl)"

definition imageResult_text :: "env \<Rightarrow> json \<Rightarrow> string \<Rightarrow> string" where
  "imageResult_text env args imageUrl =
     nl @ nl @ palette @ '' **Image Generated Successfully!**'' @ nl @ nl @
     ''**Prompt:** '' @ template_text env args @ nl @
     ''**Image URL:** [orca.image.start]'' @ imageUrl @ ''[orca.image.end] '' @ nl @ nl @
     ''*Image created with DALL-E 3*''"

text \<open>The \<open>try\<close> block of \<open>executeGenerateImage\<close>: \<open>Inl\<close> is the error it throws.\<close>

definition generate_image_try ::
    "env \<Rightarrow> variables \<Rightarrow> function_call \<Rightarrow> emission list \<Rightarrow>
     (js_error + string \<times> string) \<times> emission list" where
  "generate_image_try env vars functionCall snk =
     (case JSON_parse (fc_arguments functionCall) of
        None \<Rightarrow> (Inl (SyntaxError (fc_arguments functionCall)), snk)
      | Some args \<Rightarrow>
          let snk1 = snk @ [Executing, LoadingStart]
          in if args = JNull then (Inl (TypeError ''prompt''), snk1)
             else (case generateImageWithDALLE env args vars of
                     Inl e \<Rightarrow> (Inl e, snk1)
                   | Inr imageUrl \<Rightarrow>
                       let imageResult = imageResult_text env args imageUrl
                       in (Inr (imageResult, imageUrl),
                           snk1 @ [LoadingEnd, Completed, ImageResult imageResult])))"

definition execution_error_text :: "env \<Rightarrow> js_error \<Rightarrow> string" where
  "execution_error_text env error =
     nl @ nl @ cross_mark @ '' **Function Execution Error:** '' @
     ''Error executing generate_image function: '' @ error_message env error"

definition executeGenerateImage ::
    "env \<Rightarrow> variables \<Rightarrow> function_call \<Rightarrow> emission list \<Rightarrow>
     (string \<times> string option) \<times> emission list" where
  "executeGenerateImage env vars functionCall snk =
     (case generate_image_try env vars functionCall snk of
        (Inr (imageResult, imageUrl), snk') \<Rightarrow> ((imageResult, Some imageUrl), snk')
      | (Inl error, snk') \<Rightarrow> ((execution_error_text env error, None), snk'))"

definition name_text :: "string option \<Rightarrow> string" where
  "name_text n = (case n of Some s \<Rightarrow> s | None \<Rightarrow> ''undefined'')"

definition unknown_function_text :: "string option \<Rightarrow> string" where
  "unknown_function_text functionName =
     nl @ nl @ cross_mark @ '' **Function Error:** '' @
     ''Unknown function: '' @ name_text functionName"

definition executeFunctionCall ::
    "env \<Rightarrow> variables \<Rightarrow> function_call \<Rightarrow> emission list \<Rightarrow>
     (string \<times> string option) \<times> emission list" where
  "executeFunctionCall env vars functionCall snk =
     (let functionName = fc_name functionCall;
          snk1 = snk @ [Processing functionName]
      in if functionName = Some ''generate_image''
         then executeGenerateImage env vars functionCall snk1
         else ((unknown_function_text functionName, None), snk1))"

text \<open>The loop of \<open>processFunctionCalls\<close> over \<open>combinedResult\<close> and \<open>generatedFileUrl\<close>.\<close>

fun call_loop ::
    "env \<Rightarrow> variables \<Rightarrow> function_call list \<Rightarrow> string \<times> string option \<Rightarrow> emission list \<Rightarrow>
     (string \<times> string option) \<times> emission list" where
  "call_loop env vars [] acc snk = (acc, snk)"
| "call_loop env vars (functionCall # rest) (combinedResult, generatedFileUrl) snk =
     (let ((result, fileUrl), snk') = executeFunctionCall env vars functionCall snk
      in call_loop env vars rest
           (combinedResult @ result,
            if truthy fileUrl \<and> \<not> truthy generatedFileUrl then fileUrl else generatedFileUrl)
           snk')"

definition processFunctionCalls ::
    "env \<Rightarrow> variables \<Rightarrow> function_call list \<Rightarrow> emission list \<Rightarrow>
     (string \<times> string option) \<times> emission list" where
  "processFunctionCalls env vars calls snk =
     (if calls = [] then (([], None), snk)
      else call_loop env vars calls ([], None) snk)"

section \<open>processMessage\<close>

record chat_message =
  thread_id :: string
  message :: string
  model :: string
  system_message :: "string option"
  project_system_message :: "string option"
  variables :: variables
  file_type :: "string option"
  file_url :: "string option"

datatype final = CompleteResponse string "usage option" "string option" | SendError string

definition missingKeyMsg :: string where
  "missingKeyMsg = ''Sorry, the OpenAI API key is missing or empty. From menu right go to admin mode, then agents and edit the agent in last section you can set the openai key.''"

definition set_last_user_content ::
    "(api_content \<Rightarrow> api_content) \<Rightarrow> api_message list \<Rightarrow> api_message list" where
  "set_last_user_content f messages =
     (if messages \<noteq> [] \<and> api_role (last messages) = ''user''
      then butlast messages @ [(last messages)\<lparr>api_content := f (api_content (last messages))\<rparr>]
      else messages)"

definition attach_file :: "env \<Rightarrow> chat_message \<Rightarrow> api_message list \<Rightarrow> api_message list" where
  "attach_file env data messages =
     (if file_type data = Some ''pdf'' \<and> truthy (file_url data)
      then (case fetch_pdf_text env (case file_url data of Some u \<Rightarrow> u | None \<Rightarrow> []) of
              Inr pdfText \<Rightarrow>
                set_last_user_content
                  (\<lambda>_. Text (message data @ nl @ nl @ ''PDF Content:'' @ nl @ pdfText)) messages
            | Inl _ \<Rightarrow> messages)
      else if file_type data = Some ''image'' \<and> truthy (file_url data)
      then set_last_user_content
             (\<lambda>c. WithImage c (case file_url data of Some u \<Rightarrow> u | None \<Rightarrow> [])) messages
      else messages)"

definition error_final :: "env \<Rightarrow> js_error \<Rightarrow> final" where
  "error_final env error = SendError (''Error processing message: '' @ error_message env error)"

text \<open>
  The part of \<open>processMessage\<close> after the stream has been drained: tool execution,
  storing the assistant turn, completing the response.
\<close>

definition finish :: "env \<Rightarrow> chat_message \<Rightarrow> assembly \<Rightarrow> manager \<Rightarrow> manager \<times> emission list \<times> final" where
  "finish env data a mgr =
     (let ((functionResult, generatedFileUrl), snk) =
            processFunctionCalls env (variables data) (functionCalls a) (sink a);
          response = (if functionResult \<noteq> [] then fullResponse a @ functionResult
                      else fullResponse a);
          generatedImageUrl = (if truthy generatedFileUrl then generatedFileUrl else None);
          mgr' = addMessage (thread_id data) ''assistant'' response (time_assistant env) mgr
      in (mgr', snk, CompleteResponse response (usageInfo a) generatedImageUrl))"

text \<open>
  The part of \<open>processMessage\<close> between the credential check and the completion
  call: storing the user turn, reading the history, building the message list.
\<close>

definition prepare :: "env \<Rightarrow> chat_message \<Rightarrow> manager \<Rightarrow> api_message list \<times> manager" where
  "prepare env data mgr =
     (let mgr1 = addMessage (thread_id data) ''user'' (message data) (time_user env) mgr;
          (threadHistory, mgr2) = getHistory (thread_id data) mgr1;
          systemPrompt = formatSystemPrompt (system_message data) (project_system_message data);
          messages = formatMessagesForOpenAI systemPrompt (arrays mgr2 threadHistory) (message data)
      in (attach_file env data messages, mgr2))"

definition processMessage :: "env \<Rightarrow> chat_message \<Rightarrow> manager \<Rightarrow> manager \<times> emission list \<times> final" where
  "processMessage env data mgr =
     (let openaiApiKey = Variables_get (variables data) ''OPENAI_API_KEY''
      in if \<not> truthy openaiApiKey
         then (mgr, [MissingKey], CompleteResponse missingKeyMsg None None)
         else
           let (messages, mgr2) = prepare env data mgr
           in case chat_completions env (case openaiApiKey of Some k \<Rightarrow> k | None \<Rightarrow> [])
                     (model data) messages of
                Inl m \<Rightarrow> (mgr2, [], error_final env (Error m))
              | Inr (chunks, failure) \<Rightarrow>
                  (case consume chunks init_assembly of
                     Inl (e, a) \<Rightarrow> (mgr2, sink a, error_final env e)
                   | Inr a \<Rightarrow>
                       (case failure of
                          Some m \<Rightarrow> (mgr2, sink a, error_final env (Error m))
                        | None \<Rightarrow> finish env data a mgr2)))"

section \<open>Notions used in the statements\<close>

text \<open>The text fragments of a chunk sequence, and the fragments a sink has received.\<close>

fun text_fragments :: "chunk list \<Rightarrow> string list" where
  "text_fragments [] = []"
| "text_fragments (c # cs) =
     (case delta_content c of
        Some f \<Rightarrow> f # text_fragments cs
      | None \<Rightarrow> text_fragments cs)"

fun forwarded :: "emission list \<Rightarrow> string list" where
  "forwarded [] = []"
| "forwarded (Content f # es) = f # forwarded es"
| "forwarded (e # es) = forwarded es"

text \<open>What a chunk contributes to the text: its content, unless absent or empty.\<close>

definition fragment_of :: "chunk \<Rightarrow> string list" where
  "fragment_of c = (case delta_content c of Some f \<Rightarrow> if f \<noteq> [] then [f] else [] | None \<Rightarrow> [])"

text \<open>A delta for the tool call with index 0.\<close>

definition delta :: "string option \<Rightarrow> string option \<Rightarrow> string option \<Rightarrow> tool_call_delta" where
  "delta callId toolName argumentFragment =
     \<lparr>tc_index = 0, tc_id = callId,
      tc_function = Some \<lparr>fd_name = toolName, fd_arguments = argumentFragment\<rparr>\<rparr>"

text \<open>
  The result text and the sink messages of one invocation executed on its own
  (starting from an empty sink).
\<close>

definition call_text :: "env \<Rightarrow> variables \<Rightarrow> function_call \<Rightarrow> string" where
  "call_text env vars functionCall = fst (fst (executeFunctionCall env vars functionCall []))"

definition call_emissions :: "env \<Rightarrow> variables \<Rightarrow> function_call \<Rightarrow> emission list" where
  "call_emissions env vars functionCall = snd (executeFunctionCall env vars functionCall [])"

text \<open>
  A sample run: the completion stream carries one text fragment and one
  \<open>generate_image\<close> call whose argument text is just an opening brace.
\<close>

definition sample_stream :: "chunk list" where
  "sample_stream =
     [\<lparr>delta_content = Some ''Drawing.'', delta_tool_calls = None, chunk_usage = None\<rparr>,
      \<lparr>delta_content = None,
       delta_tool_calls = Some [\<lparr>tc_index = 0, tc_id = Some ''c1'',
         tc_function = Some \<lparr>fd_name = Some ''generate_image'', fd_arguments = Some ''{''\<rparr>\<rparr>],
       chunk_usage = None\<rparr>]"

text \<open>
  The sample engine reports a rejected JSON text as an unexpected end of input, and a
  template literal prints the string under \<open>prompt\<close> of a one-member object and
  \<open>undefined\<close> for a value without that member.
\<close>

fun sample_engine_message :: "js_error \<Rightarrow> string" where
  "sample_engine_message (SyntaxError t) = ''Unexpected end of JSON input''"
| "sample_engine_message (TypeError p) = ''Cannot read property '' @ p"
| "sample_engine_message (Error m) = m"

fun sample_template :: "json \<Rightarrow> string" where
  "sample_template (JObject [(k, JString s)]) = (if k = ''prompt'' then s else ''undefined'')"
| "sample_template v = ''undefined''"

definition sample_env :: env where
  "sample_env =
     \<lparr>chat_completions = (\<lambda>apiKey mdl messages. Inr (sample_stream, None)),
      fetch_pdf_text = (\<lambda>url. Inl ''no document''),
      images_generate = (\<lambda>apiKey args. Inr ''https://images.example/1.png''),
      engine_message = sample_engine_message,
      template_text = sample_template,
      time_user = ''t1'',
      time_assistant = ''t2''\<rparr>"

definition sample_request :: chat_message where
  "sample_request =
     \<lparr>thread_id = ''th'', message = ''draw a cat'', model = ''gpt-4'',
      system_message = None, project_system_message = None,
      variables = [(''OPENAI_API_KEY'', ''sk-1'')],
      file_type = None, file_url = None\<rparr>"

section \<open>Properties of the conversation memory\<close>

lemma heap_ok_new_manager: "heap_ok (new_manager n)"
  by (simp add: heap_ok_def new_manager_def)

lemma bounded_new_manager: "bounded (new_manager n)"
  by (simp add: bounded_def new_manager_def)

lemma history_known:
  "conversations s k = Some r \<Longrightarrow> history k s = arrays s r"
  by (simp add: history_def getHistory_def)

lemma history_unknown:
  "conversations s k = None \<Longrightarrow> history k s = []"
  by (simp add: history_def getHistory_def new_array_def)

lemma maxHistory_addMessage [simp]: "maxHistory (addMessage k rl cnt now s) = maxHistory s"
  by (simp add: addMessage_def new_array_def array_push_def array_shift_def array_modify_def
      Let_def split: option.splits)

lemma conversations_addMessage_same:
  "conversations (addMessage k rl cnt now s) k =
     Some (case conversations s k of None \<Rightarrow> next_ref s | Some r \<Rightarrow> r)"
  by (simp add: addMessage_def new_array_def array_push_def array_shift_def array_modify_def
      Let_def split: option.splits)

lemma conversations_addMessage_other:
  "k' \<noteq> k \<Longrightarrow> conversations (addMessage k rl cnt now s) k' = conversations s k'"
  by (simp add: addMessage_def new_array_def array_push_def array_shift_def array_modify_def
      Let_def split: option.splits)

lemma next_ref_addMessage:
  "next_ref (addMessage k rl cnt now s) =
     (case conversations s k of None \<Rightarrow> Suc (next_ref s) | Some r \<Rightarrow> next_ref s)"
  by (simp add: addMessage_def new_array_def array_push_def array_shift_def array_modify_def
      Let_def split: option.splits)

lemma arrays_addMessage_other:
  "r' \<noteq> (case conversations s k of None \<Rightarrow> next_ref s | Some r \<Rightarrow> r) \<Longrightarrow>
   arrays (addMessage k rl cnt now s) r' = arrays s r'"
  by (simp add: addMessage_def new_array_def array_push_def array_shift_def array_modify_def
      Let_def split: option.splits)

lemma history_addMessage_same:
  "history k (addMessage k rl cnt now s) =
     (let h = history k s @ [\<lparr>role = rl, content = cnt, timestamp = now\<rparr>]
      in if length h > maxHistory s then tl h else h)"
  by (simp add: history_def getHistory_def addMessage_def new_array_def array_push_def
      array_shift_def array_modify_def Let_def split: option.splits)

lemma heap_ok_addMessage: "heap_ok s \<Longrightarrow> heap_ok (addMessage k rl cnt now s)"
  unfolding heap_ok_def
  apply (intro conjI allI impI)
  subgoal for k' r
    by (cases "k' = k")
       (auto simp: conversations_addMessage_same conversations_addMessage_other
          next_ref_addMessage split: option.splits intro: less_SucI)
  subgoal for k1 k2 r
    by (cases "k1 = k"; cases "k2 = k")
       (auto simp: conversations_addMessage_same conversations_addMessage_other
          split: option.splits)
  done

lemma history_addMessage_other:
  assumes "heap_ok s" "k' \<noteq> k"
  shows "history k' (addMessage k rl cnt now s) = history k' s"
proof (cases "conversations s k'")
  case None
  then have "conversations (addMessage k rl cnt now s) k' = None"
    using assms by (simp add: conversations_addMessage_other)
  with None show ?thesis by (simp add: history_unknown)
next
  case (Some r')
  have c: "conversations (addMessage k rl cnt now s) k' = Some r'"
    using assms Some by (simp add: conversations_addMessage_other)
  have "r' \<noteq> (case conversations s k of None \<Rightarrow> next_ref s | Some r \<Rightarrow> r)"
    using assms Some unfolding heap_ok_def by (auto split: option.splits)
  then have "arrays (addMessage k rl cnt now s) r' = arrays s r'"
    by (rule arrays_addMessage_other)
  with c Some show ?thesis by (simp add: history_known)
qed

lemma bounded_iff: "bounded s \<longleftrightarrow> (\<forall>k. length (history k s) \<le> maxHistory s)"
  unfolding bounded_def
  apply (rule iffI)
  subgoal
    apply (rule allI)
    subgoal for k by (cases "conversations s k") (auto simp: history_known history_unknown)
    done
  subgoal by (metis history_known)
  done

lemma bounded_addMessage:
  assumes "heap_ok s" "bounded s"
  shows "bounded (addMessage k rl cnt now s)"
  unfolding bounded_iff
proof
  fix k'
  show "length (history k' (addMessage k rl cnt now s)) \<le> maxHistory (addMessage k rl cnt now s)"
  proof (cases "k' = k")
    case True
    have "length (history k s) \<le> maxHistory s" using assms(2) by (simp add: bounded_iff)
    then show ?thesis unfolding True
      by (simp add: history_addMessage_same Let_def)
  next
    case False
    then show ?thesis using assms by (simp add: history_addMessage_other bounded_iff)
  qed
qed

lemma keep_step:
  "length h \<le> n \<Longrightarrow>
   (let h' = h @ [m] in if length h' > n then tl h' else h') = keep n (h @ [m])"
  by (cases h) (auto simp: keep_def Let_def Suc_diff_le)

lemma keep_append: "keep n (keep n xs @ ys) = keep n (xs @ ys)"
proof (cases "length xs \<le> n")
  case True
  then show ?thesis by (simp add: keep_def)
next
  case False
  then have "length ys + length xs - n = length ys + (length xs - n)"
    and "length xs + length ys - n = length ys + (length xs - n)" by arith+
  with False show ?thesis by (simp add: keep_def)
qed

lemma length_keep: "length (keep n xs) = min n (length xs)"
  by (auto simp: keep_def)

lemma history_addMessages:
  "length (history k s) \<le> maxHistory s \<Longrightarrow>
   history k (addMessages k ms s) = keep (maxHistory s) (history k s @ map mk_message ms) \<and>
   maxHistory (addMessages k ms s) = maxHistory s"
proof (induction ms arbitrary: s)
  case Nil
  then show ?case by (simp add: keep_def)
next
  case (Cons t ms)
  obtain rl cnt now where t: "t = (rl, cnt, now)" by (cases t) auto
  let ?m = "\<lparr>role = rl, content = cnt, timestamp = now\<rparr>"
  let ?s = "addMessage k rl cnt now s"
  have h1: "history k ?s = keep (maxHistory s) (history k s @ [?m])"
    using Cons.prems by (simp only: history_addMessage_same keep_step)
  then have len: "length (history k ?s) \<le> maxHistory ?s"
    by (simp add: length_keep)
  from Cons.IH [OF len]
  show ?case
    by (simp add: t h1 mk_message_def keep_append [of _ "history k s @ [?m]", simplified])
qed

lemma heap_ok_clearHistory: "heap_ok s \<Longrightarrow> heap_ok (clearHistory k s)"
  by (auto simp: heap_ok_def clearHistory_def split: if_splits)

lemma heap_ok_array_modify: "heap_ok s \<Longrightarrow> heap_ok (array_modify r f s)"
  by (simp add: heap_ok_def array_modify_def)

lemma heap_ok_getHistory: "heap_ok s \<Longrightarrow> heap_ok (snd (getHistory k s))"
  by (auto simp: heap_ok_def getHistory_def new_array_def split: option.splits
      intro: less_SucI)

lemma bounded_clearHistory: "bounded s \<Longrightarrow> bounded (clearHistory k s)"
  by (auto simp: bounded_def clearHistory_def split: if_splits)

lemma bounded_getHistory:
  assumes "heap_ok s" "bounded s"
  shows "bounded (snd (getHistory k s))"
proof (cases "conversations s k")
  case None
  have "r \<noteq> next_ref s" if "conversations s k' = Some r" for k' r
    using that assms(1) unfolding heap_ok_def by fastforce
  then show ?thesis
    using assms(2) None by (simp add: bounded_def getHistory_def new_array_def)
next
  case (Some r)
  then show ?thesis using assms(2) by (simp add: getHistory_def)
qed

lemma heap_ok_addMessages: "heap_ok s \<Longrightarrow> heap_ok (addMessages k ms s)"
  by (induction k ms s rule: addMessages.induct) (simp_all add: heap_ok_addMessage)

lemma bounded_addMessages:
  "heap_ok s \<Longrightarrow> bounded s \<Longrightarrow> bounded (addMessages k ms s)"
  by (induction k ms s rule: addMessages.induct)
     (simp_all add: heap_ok_addMessage bounded_addMessage)

lemma suffix_keep: "suffix (keep n xs) xs"
  by (simp add: keep_def suffix_drop)

lemma keep_min: "keep (min k n) (keep n xs) = keep (min k n) xs"
proof -
  have "length xs - (length xs - n) - min k n + (length xs - n) = length xs - min k n"
    by arith
  then show ?thesis by (simp add: keep_def)
qed

lemmas store_eval = addMessage_def new_array_def array_push_def array_shift_def
  array_modify_def getHistory_def history_def clearHistory_def new_manager_def
  mk_message_def keep_def Let_def

subsection \<open>Bounded history\<close>

text \<open>
  Claim C1, as the code has it.  In a store that satisfies the two invariants (every
  store reached from \<open>new_manager\<close> by \<open>addMessage\<close> and \<open>clearHistory\<close> does),
  after \<open>maxHistory + k\<close> appends to one thread the thread's history is exactly the
  last \<open>maxHistory\<close> appended messages, oldest first; its length is
  \<open>min maxHistory (maxHistory + k)\<close>; it ends with the \<open>min k maxHistory\<close> most
  recent messages; every append and every clear leaves all histories within the bound;
  and one append adds the message at the end and, when the history was already full,
  removes the first (oldest) element of the extended history.
\<close>

theorem bounded_history_fifo:
  assumes "heap_ok s" and "bounded s" and "length ms = maxHistory s + k"
  shows "history key (addMessages key ms s) = keep (maxHistory s) (map mk_message ms) \<and>
         length (history key (addMessages key ms s)) = min (maxHistory s) (maxHistory s + k) \<and>
         suffix (keep (min k (maxHistory s)) (map mk_message ms))
           (history key (addMessages key ms s)) \<and>
         bounded (addMessages key ms s) \<and>
         bounded (addMessage key rl cnt now s) \<and>
         bounded (clearHistory key s) \<and>
         history key (addMessage key rl cnt now s) =
           (if length (history key s) < maxHistory s
            then history key s @ [\<lparr>role = rl, content = cnt, timestamp = now\<rparr>]
            else tl (history key s @ [\<lparr>role = rl, content = cnt, timestamp = now\<rparr>]))"
proof -
  let ?n = "maxHistory s"
  let ?h = "history key (addMessages key ms s)"
  have len: "length (history key s) \<le> ?n"
    using assms(2) by (simp add: bounded_iff)
  have "?h = keep ?n (history key s @ map mk_message ms)"
    using history_addMessages [OF len] by simp
  also have "\<dots> = keep ?n (map mk_message ms)"
    using assms(3) by (simp add: keep_def)
  finally have h: "?h = keep ?n (map mk_message ms)" .
  have l: "length ?h = min ?n (?n + k)"
    using assms(3) by (simp add: h length_keep)
  have "suffix (keep (min k ?n) (keep ?n (map mk_message ms))) (keep ?n (map mk_message ms))"
    by (rule suffix_keep)
  then have c: "suffix (keep (min k ?n) (map mk_message ms)) ?h"
    by (simp add: keep_min h)
  have e: "history key (addMessage key rl cnt now s) =
           (if length (history key s) < ?n
            then history key s @ [\<lparr>role = rl, content = cnt, timestamp = now\<rparr>]
            else tl (history key s @ [\<lparr>role = rl, content = cnt, timestamp = now\<rparr>]))"
    using len by (auto simp: history_addMessage_same Let_def)
  show ?thesis
    using h l c e assms(1,2)
    by (simp only: bounded_addMessages bounded_addMessage bounded_clearHistory simp_thms)
qed

theorem bounded_history_fifo_witness:
  "heap_ok (new_manager 2) \<and> bounded (new_manager 2) \<and>
   length [(''user'', ''a'', ''1''), (''assistant'', ''b'', ''2''), (''user'', ''c'', ''3'')]
     = maxHistory (new_manager 2) + 1 \<and>
   history ''t'' (addMessages ''t''
       [(''user'', ''a'', ''1''), (''assistant'', ''b'', ''2''), (''user'', ''c'', ''3'')]
       (new_manager 2))
     = [\<lparr>role = ''assistant'', content = ''b'', timestamp = ''2''\<rparr>,
        \<lparr>role = ''user'', content = ''c'', timestamp = ''3''\<rparr>]"
proof -
  have a: "heap_ok (new_manager 2)" by (rule heap_ok_new_manager)
  have b: "bounded (new_manager 2)" by (rule bounded_new_manager)
  have c: "length [(''user'', ''a'', ''1''), (''assistant'', ''b'', ''2''), (''user'', ''c'', ''3'')]
     = maxHistory (new_manager 2) + 1" by (simp add: new_manager_def)
  show ?thesis
    using a b c bounded_history_fifo [OF a b c, of "''t''"]
    by (simp add: keep_def mk_message_def new_manager_def)
qed

theorem k_most_recent_counterexample:
  "length (history ''t'' (addMessages ''t''
       [(''user'', ''a'', ''1''), (''assistant'', ''b'', ''2''), (''user'', ''c'', ''3'')]
       (new_manager 1))) = min 1 (1 + 2) \<and>
   \<lparr>role = ''assistant'', content = ''b'', timestamp = ''2''\<rparr>
     \<notin> set (history ''t'' (addMessages ''t''
       [(''user'', ''a'', ''1''), (''assistant'', ''b'', ''2''), (''user'', ''c'', ''3'')]
       (new_manager 1))) \<and>
   history ''t'' (addMessage ''t'' ''user'' ''a'' ''1'' (new_manager 0)) = []"
  by (simp add: store_eval)

subsection \<open>What a caller holds after \<open>getHistory\<close>\<close>

text \<open>
  Claim C4, as the code has it.  For a known thread \<open>getHistory\<close> returns the store's
  own array: any in-place change \<open>f\<close> a caller makes to the returned array is what
  the next \<open>history\<close> of that thread shows, and no other thread is affected.  For an
  unknown thread the returned array is fresh, and changing it affects no history.
\<close>

theorem getHistory_alias:
  assumes "heap_ok s" and "getHistory key s = (r, s')"
  shows "history k (array_modify r f s') =
           (if k = key \<and> conversations s key \<noteq> None then f (history k s) else history k s)"
proof (cases "conversations s key")
  case None
  then have r: "r = next_ref s"
    and s': "s' = s\<lparr>arrays := (arrays s)(next_ref s := []), next_ref := Suc (next_ref s)\<rparr>"
    using assms(2) by (auto simp: getHistory_def new_array_def)
  have fresh: "q \<noteq> next_ref s" if "conversations s k = Some q" for q
    using that assms(1) unfolding heap_ok_def by fastforce
  show ?thesis
  proof (cases "conversations s k")
    case n: None
    then show ?thesis using None
      by (simp add: history_unknown array_modify_def s')
  next
    case (Some q)
    then show ?thesis using None fresh [OF Some]
      by (auto simp: history_known array_modify_def s' r)
  qed
next
  case (Some q)
  then have r: "r = q" and s': "s' = s" using assms(2) by (auto simp: getHistory_def)
  show ?thesis
  proof (cases "conversations s k")
    case None
    then show ?thesis using Some
      by (auto simp: history_unknown array_modify_def s')
  next
    case k: (Some q')
    have "q' = q \<longleftrightarrow> k = key"
      using assms(1) k Some unfolding heap_ok_def by auto
    then show ?thesis using Some k
      by (auto simp: history_known array_modify_def s' r)
  qed
qed

theorem getHistory_alias_witness:
  "heap_ok (addMessage ''t'' ''user'' ''hi'' ''1'' (new_manager 10)) \<and>
   getHistory ''t'' (addMessage ''t'' ''user'' ''hi'' ''1'' (new_manager 10))
     = (0, addMessage ''t'' ''user'' ''hi'' ''1'' (new_manager 10)) \<and>
   history ''t'' (array_modify 0 rev (addMessage ''t'' ''user'' ''hi'' ''1'' (new_manager 10)))
     = [\<lparr>role = ''user'', content = ''hi'', timestamp = ''1''\<rparr>] \<and>
   history ''u'' (array_modify 0 rev (addMessage ''t'' ''user'' ''hi'' ''1'' (new_manager 10)))
     = []"
proof -
  let ?s = "addMessage ''t'' ''user'' ''hi'' ''1'' (new_manager 10)"
  have a: "heap_ok ?s" by (rule heap_ok_addMessage [OF heap_ok_new_manager])
  have b: "getHistory ''t'' ?s = (0, ?s)" by (simp add: store_eval)
  show ?thesis
    using a b getHistory_alias [OF a b, of "''t''" rev] getHistory_alias [OF a b, of "''u''" rev]
    by (simp add: store_eval)
qed

theorem getHistory_isolation_counterexample:
  "(let s1 = addMessage ''t'' ''user'' ''hi'' ''1'' (new_manager 10);
        (r, s2) = getHistory ''t'' s1;
        s3 = array_push r \<lparr>role = ''user'', content = ''forged'', timestamp = ''2''\<rparr> s2
    in history ''t'' s3) \<noteq> history ''t'' (addMessage ''t'' ''user'' ''hi'' ''1'' (new_manager 10))"
  by (simp add: store_eval)

subsection \<open>Clearing\<close>

text \<open>
  Claim C7.  After \<open>clearHistory key\<close> the history of \<open>key\<close> is empty, whatever the
  store was; clearing a thread the store does not know leaves the store as it is, and
  clearing twice is the same as clearing once.
\<close>

theorem clearHistory_empty_idempotent:
  "history key (clearHistory key s) = [] \<and>
   (conversations s key = None \<longrightarrow> clearHistory key s = s) \<and>
   clearHistory key (clearHistory key s) = clearHistory key s"
proof -
  have "(conversations s)(key := None) = conversations s" if "conversations s key = None"
    using that by (metis fun_upd_triv)
  then show ?thesis
    by (simp add: clearHistory_def history_unknown)
qed

theorem clearHistory_empty_idempotent_witness:
  "conversations (new_manager 3) ''t'' = None \<and>
   clearHistory ''t'' (new_manager 3) = new_manager 3 \<and>
   history ''t'' (clearHistory ''t'' (addMessage ''t'' ''user'' ''hi'' ''1'' (new_manager 3))) = []"
  using clearHistory_empty_idempotent [of "''t''" "new_manager 3"]
    clearHistory_empty_idempotent [of "''t''" "addMessage ''t'' ''user'' ''hi'' ''1'' (new_manager 3)"]
  by (simp add: new_manager_def)

subsection \<open>Appending touches one thread\<close>

text \<open>
  Claim C8.  An append to thread \<open>A\<close> leaves the history of every other thread \<open>B\<close>,
  and the array the store holds for it, unchanged.
\<close>

theorem addMessage_frame:
  assumes "heap_ok s" and "A \<noteq> B"
  shows "history B (addMessage A rl cnt now s) = history B s \<and>
         conversations (addMessage A rl cnt now s) B = conversations s B"
  using assms by (simp add: history_addMessage_other conversations_addMessage_other)

theorem addMessage_frame_witness:
  "heap_ok (addMessage ''b'' ''user'' ''hi'' ''1'' (new_manager 3)) \<and> ''a'' \<noteq> ''b'' \<and>
   history ''b'' (addMessage ''a'' ''user'' ''yo'' ''2''
                    (addMessage ''b'' ''user'' ''hi'' ''1'' (new_manager 3)))
     = [\<lparr>role = ''user'', content = ''hi'', timestamp = ''1''\<rparr>]"
proof -
  let ?s = "addMessage ''b'' ''user'' ''hi'' ''1'' (new_manager 3)"
  have a: "heap_ok ?s" by (rule heap_ok_addMessage [OF heap_ok_new_manager])
  have b: "''a'' \<noteq> ''b''" by simp
  have c: "history ''b'' ?s = [\<lparr>role = ''user'', content = ''hi'', timestamp = ''1''\<rparr>]"
    by (simp add: store_eval)
  show ?thesis
    using a b c addMessage_frame [OF a b, of "''user''" "''yo''" "''2''"] by simp
qed

section \<open>Properties of the stream assembly and of the orchestration\<close>

lemmas json_eval = JSON_parse_def tokens_def lex_idle_def is_ws_def is_digit_def is_hex_def
  num_next_def num_complete_def

lemmas assembly_eval = on_chunk_def on_content_def on_usage_def on_tool_call_def
  accumulate_def ensure_slot_def progress_def ends_with_closer_def init_assembly_def Let_def

lemma push_history_eq:
  "push_history h acc =
     acc @ map (\<lambda>m. \<lparr>api_role = role m, api_content = Text (content m)\<rparr>) h"
  by (induction h arbitrary: acc) simp_all

subsection \<open>The message list\<close>

text \<open>
  Claim C9.  The list \<open>formatMessagesForOpenAI\<close> builds is the system prompt with
  role \<open>system\<close>, then one entry for each message of the history it is given, in
  the history's order, carrying the role and the content and not the timestamp, then
  the current message with role \<open>user\<close>.
\<close>

theorem formatMessages_order:
  "formatMessagesForOpenAI systemPrompt conversationHistory currentMessage =
     \<lparr>api_role = ''system'', api_content = Text systemPrompt\<rparr> #
     map (\<lambda>m. \<lparr>api_role = role m, api_content = Text (content m)\<rparr>) conversationHistory @
     [\<lparr>api_role = ''user'', api_content = Text currentMessage\<rparr>]"
  by (simp add: formatMessagesForOpenAI_def push_history_eq)

subsection \<open>Missing credential\<close>

text \<open>
  Claim C10.  When no variable named \<open>OPENAI_API_KEY\<close> has a non-empty value,
  \<open>processMessage\<close> streams the missing-key message, completes the response with
  it, and returns the conversation store exactly as it was.
\<close>

theorem missing_key_store_unchanged:
  assumes "\<forall>v. (''OPENAI_API_KEY'', v) \<in> set (variables d) \<longrightarrow> v = []"
  shows "processMessage env d mgr = (mgr, [MissingKey], CompleteResponse missingKeyMsg None None)"
proof -
  have "\<not> truthy (Variables_get (variables d) ''OPENAI_API_KEY'')"
  proof (cases "Variables_get (variables d) ''OPENAI_API_KEY''")
    case None
    then show ?thesis by simp
  next
    case (Some v)
    then have "(''OPENAI_API_KEY'', v) \<in> set (variables d)"
      unfolding Variables_get_def by (rule map_of_SomeD)
    with assms Some show ?thesis by simp
  qed
  then show ?thesis by (simp add: processMessage_def)
qed

theorem missing_key_store_unchanged_witness:
  "variables (sample_request\<lparr>variables := [(''OPENAI_API_KEY'', '''')]\<rparr>)
     = [(''OPENAI_API_KEY'', '''')] \<and>
   processMessage sample_env (sample_request\<lparr>variables := [(''OPENAI_API_KEY'', '''')]\<rparr>)
       (new_manager 10)
     = (new_manager 10, [MissingKey], CompleteResponse missingKeyMsg None None)"
proof -
  have "\<forall>v. (''OPENAI_API_KEY'', v)
          \<in> set (variables (sample_request\<lparr>variables := [(''OPENAI_API_KEY'', '''')]\<rparr>))
        \<longrightarrow> v = []"
    by simp
  from missing_key_store_unchanged [OF this, of sample_env "new_manager 10"]
  show ?thesis by simp
qed

lemma forwarded_append: "forwarded (xs @ ys) = forwarded xs @ forwarded ys"
  by (induction xs rule: forwarded.induct) simp_all

lemma forwarded_progress: "forwarded (progress txt) = []"
  by (simp add: progress_def split: option.splits)

lemma on_tool_call_text:
  "on_tool_call tc a = Inr a' \<or> on_tool_call tc a = Inl (e, a') \<Longrightarrow>
   fullResponse a' = fullResponse a \<and> forwarded (sink a') = forwarded (sink a)"
  by (auto simp: on_tool_call_def accumulate_def ensure_slot_def Let_def forwarded_append
      forwarded_progress split: option.splits if_splits)

lemma on_tool_calls_text:
  "on_tool_calls tcs a = Inr a' \<or> on_tool_calls tcs a = Inl (e, a') \<Longrightarrow>
   fullResponse a' = fullResponse a \<and> forwarded (sink a') = forwarded (sink a)"
proof (induction tcs arbitrary: a)
  case Nil
  then show ?case by simp
next
  case (Cons tc tcs)
  show ?case
  proof (cases "on_tool_call tc a")
    case (Inl x)
    with Cons.prems have "on_tool_call tc a = Inl (e, a')" by simp
    then show ?thesis using on_tool_call_text by blast
  next
    case (Inr a1)
    with Cons.prems have "on_tool_calls tcs a1 = Inr a' \<or> on_tool_calls tcs a1 = Inl (e, a')"
      by simp
    from Cons.IH [OF this] on_tool_call_text [of tc a a1 e] Inr
    show ?thesis by simp
  qed
qed

lemma on_content_text:
  "fullResponse (on_content c a) = fullResponse a @ concat (fragment_of c) \<and>
   forwarded (sink (on_content c a)) = forwarded (sink a) @ fragment_of c"
  by (simp add: on_content_def fragment_of_def forwarded_append split: option.splits)

lemma on_chunk_text:
  "on_chunk c a = Inr a' \<or> on_chunk c a = Inl (e, a') \<Longrightarrow>
   fullResponse a' = fullResponse a @ concat (fragment_of c) \<and>
   forwarded (sink a') = forwarded (sink a) @ fragment_of c"
proof -
  assume h: "on_chunk c a = Inr a' \<or> on_chunk c a = Inl (e, a')"
  let ?a1 = "on_content c a"
  show ?thesis
  proof (cases "delta_tool_calls c")
    case None
    with h have "a' = on_usage c ?a1" by (simp add: on_chunk_def Let_def)
    then show ?thesis
      using on_content_text [of c a] by (simp add: on_usage_def split: option.splits)
  next
    case (Some tcs)
    show ?thesis
    proof (cases "on_tool_calls tcs ?a1")
      case (Inl x)
      with h Some have "on_tool_calls tcs ?a1 = Inl (e, a')" by (simp add: on_chunk_def Let_def)
      then show ?thesis using on_tool_calls_text [of tcs ?a1 a' e] on_content_text [of c a] by simp
    next
      case (Inr a2)
      with h Some have a': "a' = on_usage c a2" by (simp add: on_chunk_def Let_def)
      from Inr on_tool_calls_text [of tcs ?a1 a2 e] on_content_text [of c a]
      show ?thesis by (simp add: a' on_usage_def split: option.splits)
    qed
  qed
qed

lemma fragments_Cons:
  "concat (text_fragments (c # cs)) = concat (fragment_of c) @ concat (text_fragments cs) \<and>
   filter (\<lambda>f. f \<noteq> []) (text_fragments (c # cs)) =
     fragment_of c @ filter (\<lambda>f. f \<noteq> []) (text_fragments cs)"
  by (simp add: fragment_of_def split: option.splits)

lemma consume_text:
  "(consume chunks a = Inr a' \<longrightarrow>
      fullResponse a' = fullResponse a @ concat (text_fragments chunks) \<and>
      forwarded (sink a') = forwarded (sink a) @ filter (\<lambda>f. f \<noteq> []) (text_fragments chunks)) \<and>
   (consume chunks a = Inl (e, a') \<longrightarrow>
      prefix (forwarded (sink a'))
        (forwarded (sink a) @ filter (\<lambda>f. f \<noteq> []) (text_fragments chunks)))"
proof (induction chunks arbitrary: a)
  case Nil
  then show ?case by simp
next
  case (Cons c cs)
  show ?case
  proof (cases "on_chunk c a")
    case (Inl x)
    then have "consume (c # cs) a = Inl x" by simp
    moreover have "prefix (forwarded (sink a'))
        (forwarded (sink a) @ filter (\<lambda>f. f \<noteq> []) (text_fragments (c # cs)))"
      if "x = (e, a')"
      using on_chunk_text [of c a a' e] Inl that by (simp only: fragments_Cons) simp
    ultimately show ?thesis by auto
  next
    case (Inr a1)
    then have c: "consume (c # cs) a = consume cs a1" by simp
    from on_chunk_text [of c a a1 e] Inr
    have a1: "fullResponse a1 = fullResponse a @ concat (fragment_of c)"
      "forwarded (sink a1) = forwarded (sink a) @ fragment_of c" by simp_all
    show ?thesis
      unfolding c using Cons.IH [of a1] by (simp only: fragments_Cons a1) simp
  qed
qed

lemma sink_grows_tool_call:
  "on_tool_call tc a = Inr a' \<Longrightarrow> prefix (sink a) (sink a')"
  by (auto simp: on_tool_call_def accumulate_def ensure_slot_def Let_def
      split: option.splits if_splits)

lemma sink_grows_tool_calls:
  "on_tool_calls tcs a = Inr a' \<Longrightarrow> prefix (sink a) (sink a')"
proof (induction tcs arbitrary: a)
  case Nil
  then show ?case by simp
next
  case (Cons tc tcs)
  then obtain a1 where a1: "on_tool_call tc a = Inr a1" "on_tool_calls tcs a1 = Inr a'"
    by (auto split: sum.splits)
  from sink_grows_tool_call [OF a1(1)] Cons.IH [OF a1(2)] show ?case
    by (rule prefix_order.trans)
qed

lemma on_chunk_immediate:
  assumes "delta_content c = Some f" and "f \<noteq> []" and "on_chunk c a = Inr a'"
  shows "prefix (sink a @ [Content f]) (sink a')"
proof -
  have s: "sink (on_content c a) = sink a @ [Content f]"
    using assms(1,2) by (simp add: on_content_def)
  show ?thesis
  proof (cases "delta_tool_calls c")
    case None
    with assms(3) have "a' = on_usage c (on_content c a)" by (simp add: on_chunk_def Let_def)
    then show ?thesis using s by (simp add: on_usage_def split: option.splits)
  next
    case (Some tcs)
    with assms(3) obtain a2 where a2: "on_tool_calls tcs (on_content c a) = Inr a2"
      and a': "a' = on_usage c a2"
      by (auto simp: on_chunk_def Let_def split: sum.splits)
    from sink_grows_tool_calls [OF a2] s show ?thesis
      by (simp add: a' on_usage_def split: option.splits)
  qed
qed

subsection \<open>Text fragments\<close>

text \<open>
  Claim C5, as the code has it.  When the chunks are consumed to the end, the assembled
  text is the concatenation of the chunks' text fragments in arrival order, and the
  sink has received exactly the non-empty fragments, each once, in arrival order; a
  fragment that is the empty string is not forwarded.  When a tool-call delta makes
  the loop throw, the fragments forwarded so far are an initial part of that
  sequence.  A non-empty fragment is sent before anything else its chunk causes.  For
  the fragments \<open>Hello \<close> and \<open>world\<close> the text is \<open>Hello world\<close> and the sink
  receives those two fragments in that order.
\<close>

theorem text_forwarding:
  "(consume chunks a = Inr a' \<longrightarrow>
      fullResponse a' = fullResponse a @ concat (text_fragments chunks) \<and>
      forwarded (sink a') = forwarded (sink a) @ filter (\<lambda>f. f \<noteq> []) (text_fragments chunks)) \<and>
   (consume chunks a = Inl (e, a') \<longrightarrow>
      prefix (forwarded (sink a'))
        (forwarded (sink a) @ filter (\<lambda>f. f \<noteq> []) (text_fragments chunks))) \<and>
   (delta_content c = Some f \<longrightarrow> f \<noteq> [] \<longrightarrow> on_chunk c a = Inr a' \<longrightarrow>
      prefix (sink a @ [Content f]) (sink a')) \<and>
   consume [\<lparr>delta_content = Some ''Hello '', delta_tool_calls = None, chunk_usage = None\<rparr>,
            \<lparr>delta_content = Some ''world'', delta_tool_calls = None, chunk_usage = None\<rparr>]
       init_assembly
     = Inr \<lparr>fullResponse = ''Hello world'', usageInfo = None, functionCalls = [],
            sink = [Content ''Hello '', Content ''world'']\<rparr>"
proof -
  have ex: "consume [\<lparr>delta_content = Some ''Hello '', delta_tool_calls = None, chunk_usage = None\<rparr>,
            \<lparr>delta_content = Some ''world'', delta_tool_calls = None, chunk_usage = None\<rparr>]
       init_assembly
     = Inr \<lparr>fullResponse = ''Hello world'', usageInfo = None, functionCalls = [],
            sink = [Content ''Hello '', Content ''world'']\<rparr>"
    by (simp add: assembly_eval)
  show ?thesis
    using consume_text [of chunks a a' e] on_chunk_immediate [of c f a a'] ex
    by (simp only: simp_thms) blast
qed

theorem text_forwarding_witness:
  "consume sample_stream init_assembly
     = Inr \<lparr>fullResponse = ''Drawing.'', usageInfo = None,
            functionCalls = [\<lparr>fc_id = Some ''c1'', fc_name = Some ''generate_image'',
                              fc_arguments = ''{''\<rparr>],
            sink = [Content ''Drawing.'', Calling (Some ''generate_image'')]\<rparr> \<and>
   text_fragments sample_stream = [''Drawing.''] \<and>
   forwarded [Content ''Drawing.'', Calling (Some ''generate_image'')] = [''Drawing.''] \<and>
   consume [\<lparr>delta_content = Some ''Hi'',
             delta_tool_calls = Some [\<lparr>tc_index = 1, tc_id = Some ''c1'',
               tc_function = Some \<lparr>fd_name = Some ''t'', fd_arguments = Some ''x''\<rparr>\<rparr>],
             chunk_usage = None\<rparr>,
            \<lparr>delta_content = Some ''there'', delta_tool_calls = None, chunk_usage = None\<rparr>]
       init_assembly
     = Inl (TypeError ''function'',
            \<lparr>fullResponse = ''Hi'', usageInfo = None,
             functionCalls = [\<lparr>fc_id = Some ''c1'', fc_name = Some ''t'', fc_arguments = []\<rparr>],
             sink = [Content ''Hi'', Calling (Some ''t'')]\<rparr>) \<and>
   prefix (forwarded [Content ''Hi'', Calling (Some ''t'')]) [''Hi'', ''there''] \<and>
   on_chunk \<lparr>delta_content = Some ''Hi'',
             delta_tool_calls = Some [delta (Some ''c1'') (Some ''t'') None],
             chunk_usage = None\<rparr> init_assembly
     = Inr \<lparr>fullResponse = ''Hi'', usageInfo = None,
            functionCalls = [\<lparr>fc_id = Some ''c1'', fc_name = Some ''t'', fc_arguments = []\<rparr>],
            sink = [Content ''Hi'', Calling (Some ''t'')]\<rparr> \<and>
   prefix [Content ''Hi''] [Content ''Hi'', Calling (Some ''t'')]"
proof -
  let ?a = "\<lparr>fullResponse = ''Drawing.'', usageInfo = None,
            functionCalls = [\<lparr>fc_id = Some ''c1'', fc_name = Some ''generate_image'',
                              fc_arguments = ''{''\<rparr>],
            sink = [Content ''Drawing.'', Calling (Some ''generate_image'')]\<rparr>"
  let ?gap = "[\<lparr>delta_content = Some ''Hi'',
             delta_tool_calls = Some [\<lparr>tc_index = 1, tc_id = Some ''c1'',
               tc_function = Some \<lparr>fd_name = Some ''t'', fd_arguments = Some ''x''\<rparr>\<rparr>],
             chunk_usage = None\<rparr>,
            \<lparr>delta_content = Some ''there'', delta_tool_calls = None, chunk_usage = None\<rparr>]"
  let ?b = "\<lparr>fullResponse = ''Hi'', usageInfo = None,
             functionCalls = [\<lparr>fc_id = Some ''c1'', fc_name = Some ''t'', fc_arguments = []\<rparr>],
             sink = [Content ''Hi'', Calling (Some ''t'')]\<rparr>"
  let ?c = "\<lparr>delta_content = Some ''Hi'',
             delta_tool_calls = Some [delta (Some ''c1'') (Some ''t'') None],
             chunk_usage = None\<rparr>"
  have 1: "consume sample_stream init_assembly = Inr ?a"
    by (simp add: sample_stream_def assembly_eval json_eval)
  have 2: "consume ?gap init_assembly = Inl (TypeError ''function'', ?b)"
    by (simp add: assembly_eval)
  have 3: "on_chunk ?c init_assembly = Inr ?b"
    by (simp add: delta_def assembly_eval)
  have 4: "text_fragments sample_stream = [''Drawing.'']"
    by (simp add: sample_stream_def)
  from text_forwarding [of sample_stream init_assembly ?a "TypeError ''function''" ?c "''Hi''"]
    text_forwarding [of ?gap init_assembly ?b "TypeError ''function''" ?c "''Hi''"]
  show ?thesis
    using 1 2 3 4 by (simp add: init_assembly_def)
qed

theorem empty_fragment_counterexample:
  "text_fragments [\<lparr>delta_content = Some '''', delta_tool_calls = None, chunk_usage = None\<rparr>]
     = [''''] \<and>
   consume [\<lparr>delta_content = Some '''', delta_tool_calls = None, chunk_usage = None\<rparr>]
       init_assembly
     = Inr \<lparr>fullResponse = '''', usageInfo = None, functionCalls = [], sink = []\<rparr>"
  by (simp add: assembly_eval)

lemma parse_incomplete: "JSON_parse ''{\"a\":'' = None"
  by (simp add: json_eval)

lemma parse_complete: "JSON_parse ''{\"a\":1}'' = Some (JObject [(''a'', JNumber ''1'')])"
  by (simp add: json_eval)

lemma example_run:
  "on_tool_calls [delta (Some ''c1'') (Some ''t'') None, delta None None (Some ''{\"a\":'')]
       init_assembly
     = Inr \<lparr>fullResponse = [], usageInfo = None,
            functionCalls = [\<lparr>fc_id = Some ''c1'', fc_name = Some ''t'', fc_arguments = ''{\"a\":''\<rparr>],
            sink = [Calling (Some ''t'')]\<rparr> \<and>
   on_tool_calls [delta (Some ''c1'') (Some ''t'') None, delta None None (Some ''{\"a\":''),
                  delta None None (Some ''1}'')]
       init_assembly
     = Inr \<lparr>fullResponse = [], usageInfo = None,
            functionCalls = [\<lparr>fc_id = Some ''c1'', fc_name = Some ''t'', fc_arguments = ''{\"a\":1}''\<rparr>],
            sink = [Calling (Some ''t''), Parameters (JObject [(''a'', JNumber ''1'')])]\<rparr>"
  by (simp add: delta_def assembly_eval parse_incomplete parse_complete)

subsection \<open>Progress notifications\<close>

text \<open>
  Claim C3, as the code has it.  A tool-call delta with a non-empty argument fragment,
  for a slot that exists once the delta has been given its slot, appends the fragment
  to the slot's argument text and then sends the "parameters so far" message exactly
  when the accumulated text ends with a double quote, \<open>}\<close> or \<open>]\<close> and
  \<open>JSON.parse\<close> accepts it; otherwise nothing is sent and nothing fails.  For the
  fragments \<open>{"a":\<close> and \<open>1}\<close> no such message follows the first fragment and exactly
  one follows the second.
\<close>

theorem progress_notification:
  assumes "tc_function tc = Some f" and "fd_arguments f = Some frag" and "frag \<noteq> []"
    and "tc_index tc < length (functionCalls (ensure_slot tc f a))"
  shows "(let a1 = ensure_slot tc f a;
              txt = fc_arguments (functionCalls a1 ! tc_index tc) @ frag
          in case on_tool_call tc a of
               Inl _ \<Rightarrow> False
             | Inr a' \<Rightarrow>
                 fc_arguments (functionCalls a' ! tc_index tc) = txt \<and>
                 sink a' = sink a1 @
                   (case JSON_parse txt of
                      None \<Rightarrow> []
                    | Some v \<Rightarrow> if ends_with_closer txt then [Parameters v] else [])) \<and>
         on_tool_calls [delta (Some ''c1'') (Some ''t'') None, delta None None (Some ''{\"a\":'')]
             init_assembly
           = Inr \<lparr>fullResponse = [], usageInfo = None,
                  functionCalls = [\<lparr>fc_id = Some ''c1'', fc_name = Some ''t'', fc_arguments = ''{\"a\":''\<rparr>],
                  sink = [Calling (Some ''t'')]\<rparr> \<and>
         on_tool_calls [delta (Some ''c1'') (Some ''t'') None, delta None None (Some ''{\"a\":''),
                        delta None None (Some ''1}'')]
             init_assembly
           = Inr \<lparr>fullResponse = [], usageInfo = None,
                  functionCalls = [\<lparr>fc_id = Some ''c1'', fc_name = Some ''t'', fc_arguments = ''{\"a\":1}''\<rparr>],
                  sink = [Calling (Some ''t''), Parameters (JObject [(''a'', JNumber ''1'')])]\<rparr>"
proof -
  have "(let a1 = ensure_slot tc f a;
              txt = fc_arguments (functionCalls a1 ! tc_index tc) @ frag
          in case on_tool_call tc a of
               Inl _ \<Rightarrow> False
             | Inr a' \<Rightarrow>
                 fc_arguments (functionCalls a' ! tc_index tc) = txt \<and>
                 sink a' = sink a1 @
                   (case JSON_parse txt of
                      None \<Rightarrow> []
                    | Some v \<Rightarrow> if ends_with_closer txt then [Parameters v] else []))"
    using assms
    by (simp add: on_tool_call_def accumulate_def progress_def Let_def split: option.splits)
  then show ?thesis using example_run by (simp only: simp_thms)
qed

theorem progress_notification_witness:
  "tc_function (delta None None (Some '']''))
     = Some \<lparr>fd_name = None, fd_arguments = Some '']''\<rparr> \<and>
   (case on_tool_call (delta None None (Some '']''))
           \<lparr>fullResponse = [], usageInfo = None,
            functionCalls = [\<lparr>fc_id = Some ''c1'', fc_name = Some ''t'', fc_arguments = ''[1''\<rparr>],
            sink = [Calling (Some ''t'')]\<rparr> of
      Inl _ \<Rightarrow> False
    | Inr a' \<Rightarrow>
        fc_arguments (functionCalls a' ! 0) = ''[1]'' \<and>
        sink a' = [Calling (Some ''t''), Parameters (JArray [JNumber ''1''])])"
proof -
  let ?a = "\<lparr>fullResponse = [], usageInfo = None,
      functionCalls = [\<lparr>fc_id = Some ''c1'', fc_name = Some ''t'', fc_arguments = ''[1''\<rparr>],
      sink = [Calling (Some ''t'')]\<rparr>"
  let ?tc = "delta None None (Some '']'')"
  let ?f = "\<lparr>fd_name = None, fd_arguments = Some '']''\<rparr>"
  have 1: "tc_function ?tc = Some ?f" by (simp add: delta_def)
  have 2: "fd_arguments ?f = Some '']''" by simp
  have 3: "'']'' \<noteq> []" by simp
  have 4: "tc_index ?tc < length (functionCalls (ensure_slot ?tc ?f ?a))"
    by (simp add: delta_def ensure_slot_def)
  have e: "ensure_slot ?tc ?f ?a = ?a" by (simp add: delta_def ensure_slot_def)
  have i: "tc_index ?tc = 0" by (simp add: delta_def)
  have p: "JSON_parse ''[1]'' = Some (JArray [JNumber ''1''])" by (simp add: json_eval)
  from progress_notification [OF 1 2 3 4]
  show ?thesis
    using 1 by (simp add: e i Let_def p ends_with_closer_def split: sum.splits)
qed

theorem bare_value_counterexample:
  "JSON_parse ''1'' = Some (JNumber ''1'') \<and>
   on_tool_calls [delta (Some ''c1'') (Some ''t'') (Some ''1'')] init_assembly
     = Inr \<lparr>fullResponse = [], usageInfo = None,
            functionCalls = [\<lparr>fc_id = Some ''c1'', fc_name = Some ''t'', fc_arguments = ''1''\<rparr>],
            sink = [Calling (Some ''t'')]\<rparr>"
  by (simp add: delta_def assembly_eval json_eval)

subsection \<open>Tool execution\<close>

lemma generate_image_try_sink:
  "generate_image_try env vars fc snk =
     (fst (generate_image_try env vars fc []), snk @ snd (generate_image_try env vars fc []))"
  by (simp add: generate_image_try_def Let_def split: option.splits sum.splits)

lemma executeGenerateImage_sink:
  "executeGenerateImage env vars fc snk =
     (fst (executeGenerateImage env vars fc []), snk @ snd (executeGenerateImage env vars fc []))"
proof -
  obtain r s where t: "generate_image_try env vars fc [] = (r, s)" by (cases "generate_image_try env vars fc []")
  then have "generate_image_try env vars fc snk = (r, snk @ s)"
    using generate_image_try_sink [of env vars fc snk] by simp
  with t show ?thesis
    by (simp add: executeGenerateImage_def split: sum.splits prod.splits)
qed

lemma executeFunctionCall_sink:
  "executeFunctionCall env vars fc snk =
     ((call_text env vars fc, snd (fst (executeFunctionCall env vars fc []))),
      snk @ call_emissions env vars fc)"
proof (cases "fc_name fc = Some ''generate_image''")
  case True
  obtain r s where t: "executeGenerateImage env vars fc [] = (r, s)"
    by (cases "executeGenerateImage env vars fc []")
  have "executeGenerateImage env vars fc xs = (r, xs @ s)" for xs
    using executeGenerateImage_sink [of env vars fc xs] t by simp
  then show ?thesis using True
    by (simp add: executeFunctionCall_def call_text_def call_emissions_def Let_def)
next
  case False
  then show ?thesis
    by (simp add: executeFunctionCall_def call_text_def call_emissions_def Let_def)
qed

lemma call_loop_result:
  "fst (fst (call_loop env vars fcs (acc, url) snk)) = acc @ concat (map (call_text env vars) fcs) \<and>
   snd (call_loop env vars fcs (acc, url) snk) = snk @ concat (map (call_emissions env vars) fcs)"
proof (induction fcs arbitrary: acc url snk)
  case Nil
  then show ?case by simp
next
  case (Cons fc fcs)
  have step: "call_loop env vars (fc # fcs) (acc, url) snk =
      call_loop env vars fcs
        (acc @ call_text env vars fc,
         if truthy (snd (fst (executeFunctionCall env vars fc []))) \<and> \<not> truthy url
         then snd (fst (executeFunctionCall env vars fc [])) else url)
        (snk @ call_emissions env vars fc)"
    by (subst call_loop.simps, subst executeFunctionCall_sink) simp
  show ?case unfolding step by (simp add: Cons.IH)
qed

lemma processFunctionCalls_result:
  "fst (fst (processFunctionCalls env vars fcs snk)) = concat (map (call_text env vars) fcs) \<and>
   snd (processFunctionCalls env vars fcs snk) = snk @ concat (map (call_emissions env vars) fcs)"
  using call_loop_result [of env vars fcs "[]" None snk]
  by (simp add: processFunctionCalls_def)

lemma sublist_concat_member:
  assumes "x \<in> set xs"
  shows "sublist (f x) (concat (map f xs))"
proof -
  from assms obtain ys zs where "xs = ys @ x # zs" by (auto dest: split_list)
  then have "concat (map f xs) = concat (map f ys) @ f x @ concat (map f zs)" by simp
  then show ?thesis unfolding sublist_def by blast
qed

lemma call_text_thrown:
  assumes "fc_name fc = Some ''generate_image''" and "fst (generate_image_try env vars fc []) = Inl e"
  shows "call_text env vars fc = execution_error_text env e"
proof -
  obtain s where "generate_image_try env vars fc [] = (Inl e, s)"
    using assms(2) by (cases "generate_image_try env vars fc []") simp
  moreover have "generate_image_try env vars fc [Processing (fc_name fc)] =
      (fst (generate_image_try env vars fc []), [Processing (fc_name fc)] @ snd (generate_image_try env vars fc []))"
    by (rule generate_image_try_sink)
  ultimately show ?thesis using assms(1)
    by (simp add: call_text_def executeFunctionCall_def executeGenerateImage_def Let_def)
qed

lemma call_text_unknown:
  "fc_name fc \<noteq> Some ''generate_image'' \<Longrightarrow> call_text env vars fc = unknown_function_text (fc_name fc)"
  by (simp add: call_text_def executeFunctionCall_def Let_def)

lemma try_unparseable:
  "JSON_parse (fc_arguments fc) = None \<Longrightarrow>
   fst (generate_image_try env vars fc []) = Inl (SyntaxError (fc_arguments fc))"
  by (simp add: generate_image_try_def)

lemma finish_completes:
  "finish env d a mgr =
     (addMessage (thread_id d) ''assistant''
        (fullResponse a @ concat (map (call_text env (variables d)) (functionCalls a)))
        (time_assistant env) mgr,
      sink a @ concat (map (call_emissions env (variables d)) (functionCalls a)),
      CompleteResponse
        (fullResponse a @ concat (map (call_text env (variables d)) (functionCalls a)))
        (usageInfo a)
        (if truthy (snd (fst (processFunctionCalls env (variables d) (functionCalls a) (sink a))))
         then snd (fst (processFunctionCalls env (variables d) (functionCalls a) (sink a)))
         else None))"
proof -
  obtain r u s where p: "processFunctionCalls env (variables d) (functionCalls a) (sink a) = ((r, u), s)"
    by (metis surj_pair)
  from processFunctionCalls_result [of env "variables d" "functionCalls a" "sink a"] p
  have r: "r = concat (map (call_text env (variables d)) (functionCalls a))"
    and s: "s = sink a @ concat (map (call_emissions env (variables d)) (functionCalls a))"
    by simp_all
  have "(if r \<noteq> [] then fullResponse a @ r else fullResponse a) = fullResponse a @ r" by simp
  then show ?thesis
    unfolding finish_def p Let_def prod.case r [symmetric] s [symmetric] by simp
qed

lemma processMessage_drained:
  assumes "Variables_get (variables d) ''OPENAI_API_KEY'' = Some key" and "key \<noteq> []"
    and "prepare env d mgr = (msgs, mgr2)"
    and "chat_completions env key (model d) msgs = Inr (chunks, None)"
    and "consume chunks init_assembly = Inr a"
  shows "processMessage env d mgr = finish env d a mgr2"
  using assms by (simp add: processMessage_def Let_def)

lemmas handler_eval = executeFunctionCall_def executeGenerateImage_def generate_image_try_def
  generateImageWithDALLE_def Variables_get_def call_text_def call_emissions_def
  processFunctionCalls_def

lemma sublist_prepend:
  assumes "sublist xs ys"
  shows "sublist xs (zs @ ys)"
proof -
  from assms obtain ps ss where "ys = ps @ xs @ ss" unfolding sublist_def by blast
  then have "zs @ ys = (zs @ ps) @ xs @ ss" by simp
  then show ?thesis unfolding sublist_def by blast
qed

lemma parse_open_brace: "JSON_parse ''{'' = None"
  by (simp add: json_eval)

lemma consume_sample:
  "consume sample_stream init_assembly
     = Inr \<lparr>fullResponse = ''Drawing.'', usageInfo = None,
            functionCalls = [\<lparr>fc_id = Some ''c1'', fc_name = Some ''generate_image'',
                              fc_arguments = ''{''\<rparr>],
            sink = [Content ''Drawing.'', Calling (Some ''generate_image'')]\<rparr>"
  by (simp add: sample_stream_def assembly_eval parse_open_brace)

lemma call_text_thrown_literal:
  assumes "fc_name fc = Some ''generate_image''" and "fst (generate_image_try env vars fc []) = Inl e"
  shows "call_text env vars fc =
           [CHR 0x0A, CHR 0x0A, CHR 0xE2, CHR 0x9D, CHR 0x8C] @
           '' **Function Execution Error:** Error executing generate_image function: '' @
           (case e of
              Error m \<Rightarrow> m
            | TypeError p \<Rightarrow> engine_message env (TypeError p)
            | SyntaxError t \<Rightarrow> engine_message env (SyntaxError t))"
  unfolding call_text_thrown [OF assms]
  by (cases e) (simp_all add: execution_error_text_def nl_def cross_mark_def)

lemma call_text_unknown_literal:
  "fc_name fc \<noteq> Some ''generate_image'' \<Longrightarrow>
   call_text env vars fc =
     [CHR 0x0A, CHR 0x0A, CHR 0xE2, CHR 0x9D, CHR 0x8C] @
     '' **Function Error:** Unknown function: '' @
     (case fc_name fc of Some n \<Rightarrow> n | None \<Rightarrow> ''undefined'')"
  by (simp add: call_text_unknown unknown_function_text_def name_text_def nl_def cross_mark_def)

subsection \<open>Argument text that does not parse\<close>

text \<open>
  Claim C2, as the code has it.  When the stream has been drained without an error and
  the argument text of some tool call is not parseable, the request still completes
  through \<open>completeResponse\<close>: the response text is the streamed text followed by
  the result text of every tool call in order, and it contains the failure text of
  that call: for \<open>generate_image\<close> two line breaks, the cross mark and
  " **Function Execution Error:** Error executing generate_image function: " followed
  by the engine's message for the rejected text, for any other name the same opening
  with " **Function Error:** Unknown function: " followed by the name.  That response
  text is stored as the assistant turn.
\<close>

theorem unparseable_arguments_contained:
  assumes "Variables_get (variables d) ''OPENAI_API_KEY'' = Some key" and "key \<noteq> []"
    and "prepare env d mgr = (msgs, mgr2)"
    and "chat_completions env key (model d) msgs = Inr (chunks, None)"
    and "consume chunks init_assembly = Inr a"
    and "fc \<in> set (functionCalls a)"
    and "JSON_parse (fc_arguments fc) = None"
  shows "(case processMessage env d mgr of
            (mgr', snk, CompleteResponse txt u f) \<Rightarrow>
              txt = fullResponse a @ concat (map (call_text env (variables d)) (functionCalls a)) \<and>
              sublist (if fc_name fc = Some ''generate_image''
                       then [CHR 0x0A, CHR 0x0A, CHR 0xE2, CHR 0x9D, CHR 0x8C] @
                            '' **Function Execution Error:** Error executing generate_image function: '' @
                            engine_message env (SyntaxError (fc_arguments fc))
                       else [CHR 0x0A, CHR 0x0A, CHR 0xE2, CHR 0x9D, CHR 0x8C] @
                            '' **Function Error:** Unknown function: '' @
                            (case fc_name fc of Some n \<Rightarrow> n | None \<Rightarrow> ''undefined'')) txt \<and>
              sublist (if fc_name fc = Some ''generate_image''
                       then execution_error_text env (SyntaxError (fc_arguments fc))
                       else unknown_function_text (fc_name fc)) txt \<and>
              mgr' = addMessage (thread_id d) ''assistant'' txt (time_assistant env) mgr2
          | (mgr', snk, SendError m) \<Rightarrow> False)"
proof -
  let ?l = "if fc_name fc = Some ''generate_image''
            then [CHR 0x0A, CHR 0x0A, CHR 0xE2, CHR 0x9D, CHR 0x8C] @
                 '' **Function Execution Error:** Error executing generate_image function: '' @
                 engine_message env (SyntaxError (fc_arguments fc))
            else [CHR 0x0A, CHR 0x0A, CHR 0xE2, CHR 0x9D, CHR 0x8C] @
                 '' **Function Error:** Unknown function: '' @
                 (case fc_name fc of Some n \<Rightarrow> n | None \<Rightarrow> ''undefined'')"
  let ?t = "if fc_name fc = Some ''generate_image''
            then execution_error_text env (SyntaxError (fc_arguments fc))
            else unknown_function_text (fc_name fc)"
  let ?r = "fullResponse a @ concat (map (call_text env (variables d)) (functionCalls a))"
  have l: "call_text env (variables d) fc = ?l"
    using call_text_thrown_literal [OF _ try_unparseable [OF assms(7)], of env "variables d"]
      call_text_unknown_literal [of fc env "variables d"]
    by simp
  have t: "call_text env (variables d) fc = ?t"
    using call_text_thrown [OF _ try_unparseable [OF assms(7)]] call_text_unknown [of fc]
    by simp
  have "sublist (call_text env (variables d) fc)
          (concat (map (call_text env (variables d)) (functionCalls a)))"
    using assms(6) by (rule sublist_concat_member)
  then have s: "sublist (call_text env (variables d) fc) ?r"
    by (rule sublist_prepend)
  have "sublist ?l ?r" using s unfolding l .
  moreover have "sublist ?t ?r" using s unfolding t .
  ultimately show ?thesis
    unfolding processMessage_drained [OF assms(1-5)] finish_completes by simp
qed

theorem unparseable_arguments_contained_witness:
  "Variables_get (variables sample_request) ''OPENAI_API_KEY'' = Some ''sk-1'' \<and>
   consume sample_stream init_assembly
     = Inr \<lparr>fullResponse = ''Drawing.'', usageInfo = None,
            functionCalls = [\<lparr>fc_id = Some ''c1'', fc_name = Some ''generate_image'',
                              fc_arguments = ''{''\<rparr>],
            sink = [Content ''Drawing.'', Calling (Some ''generate_image'')]\<rparr> \<and>
   JSON_parse ''{'' = None \<and>
   (case processMessage sample_env sample_request (new_manager 10) of
      (mgr', snk, CompleteResponse txt u f) \<Rightarrow>
        sublist ([CHR 0x0A, CHR 0x0A, CHR 0xE2, CHR 0x9D, CHR 0x8C] @
                 '' **Function Execution Error:** Error executing generate_image function: '' @
                 ''Unexpected end of JSON input'') txt
    | (mgr', snk, SendError m) \<Rightarrow> False)"
proof -
  let ?a = "\<lparr>fullResponse = ''Drawing.'', usageInfo = None,
            functionCalls = [\<lparr>fc_id = Some ''c1'', fc_name = Some ''generate_image'',
                              fc_arguments = ''{''\<rparr>],
            sink = [Content ''Drawing.'', Calling (Some ''generate_image'')]\<rparr>"
  let ?fc = "\<lparr>fc_id = Some ''c1'', fc_name = Some ''generate_image'', fc_arguments = ''{''\<rparr>"
  let ?p = "prepare sample_env sample_request (new_manager 10)"
  have 1: "Variables_get (variables sample_request) ''OPENAI_API_KEY'' = Some ''sk-1''"
    by (simp add: Variables_get_def sample_request_def)
  have 2: "''sk-1'' \<noteq> []" by simp
  have 3: "?p = (fst ?p, snd ?p)" by simp
  have 4: "chat_completions sample_env ''sk-1'' (model sample_request) (fst ?p)
             = Inr (sample_stream, None)"
    by (simp add: sample_env_def)
  have 6: "?fc \<in> set (functionCalls ?a)" by simp
  have 7: "JSON_parse (fc_arguments ?fc) = None" by (simp add: parse_open_brace)
  have m: "engine_message sample_env (SyntaxError ''{'') = ''Unexpected end of JSON input''"
    by (simp add: sample_env_def)
  from unparseable_arguments_contained [OF 1 2 3 4 consume_sample 6 7]
  show ?thesis
    using 1 consume_sample parse_open_brace
    by (simp add: m split: prod.splits final.splits)
qed

theorem request_completes_counterexample:
  "functionCalls (case consume sample_stream init_assembly of Inr a \<Rightarrow> a | Inl (e, a) \<Rightarrow> a)
     = [\<lparr>fc_id = Some ''c1'', fc_name = Some ''generate_image'', fc_arguments = ''{''\<rparr>] \<and>
   JSON_parse ''{'' = None \<and>
   snd (snd (processMessage sample_env sample_request (new_manager 10)))
     = CompleteResponse
         (''Drawing.'' @ [CHR 0x0A, CHR 0x0A, CHR 0xE2, CHR 0x9D, CHR 0x8C] @
          '' **Function Execution Error:** Error executing generate_image function: '' @
          ''Unexpected end of JSON input'')
         None None"
proof -
  let ?p = "prepare sample_env sample_request (new_manager 10)"
  have 1: "Variables_get (variables sample_request) ''OPENAI_API_KEY'' = Some ''sk-1''"
    by (simp add: Variables_get_def sample_request_def)
  have 3: "?p = (fst ?p, snd ?p)" by simp
  have 4: "chat_completions sample_env ''sk-1'' (model sample_request) (fst ?p)
             = Inr (sample_stream, None)"
    by (simp add: sample_env_def)
  have "processMessage sample_env sample_request (new_manager 10)
          = finish sample_env sample_request
              \<lparr>fullResponse = ''Drawing.'', usageInfo = None,
               functionCalls = [\<lparr>fc_id = Some ''c1'', fc_name = Some ''generate_image'',
                                 fc_arguments = ''{''\<rparr>],
               sink = [Content ''Drawing.'', Calling (Some ''generate_image'')]\<rparr> (snd ?p)"
    by (rule processMessage_drained [OF 1 _ 3 4 consume_sample]) simp
  then show ?thesis
    by (simp add: consume_sample parse_open_brace finish_def handler_eval Let_def
        execution_error_text_def nl_def cross_mark_def sample_env_def)
qed

subsection \<open>A failing tool call\<close>

text \<open>
  Claim C6.  Whatever the calls of a list do, the combined result is the
  concatenation, in order, of the texts that each call yields on its own, and the sink
  receives the messages of every call: no call keeps another from being executed.  The
  text of a \<open>generate_image\<close> call that throws is two line breaks, the cross mark
  and " **Function Execution Error:** Error executing generate_image function: "
  followed by the message of the error; the text of a call with any other name is the
  same opening with " **Function Error:** Unknown function: " followed by the name; the
  text of every call of the list, and so the failure text of a failing one, appears
  in the combined result.  The response is then completed with the streamed text
  followed by the combined result.
\<close>

theorem tool_failure_contained:
  "fst (fst (processFunctionCalls env vars fcs snk)) = concat (map (call_text env vars) fcs) \<and>
   snd (processFunctionCalls env vars fcs snk)
     = snk @ concat (map (call_emissions env vars) fcs) \<and>
   (fc \<in> set fcs \<longrightarrow>
      sublist (call_text env vars fc) (fst (fst (processFunctionCalls env vars fcs snk)))) \<and>
   (fc_name fc = Some ''generate_image'' \<longrightarrow>
    fst (generate_image_try env vars fc []) = Inl e \<longrightarrow>
      call_text env vars fc = execution_error_text env e \<and>
      call_text env vars fc =
        [CHR 0x0A, CHR 0x0A, CHR 0xE2, CHR 0x9D, CHR 0x8C] @
        '' **Function Execution Error:** Error executing generate_image function: '' @
        (case e of
           Error m \<Rightarrow> m
         | TypeError p \<Rightarrow> engine_message env (TypeError p)
         | SyntaxError t \<Rightarrow> engine_message env (SyntaxError t))) \<and>
   (fc_name fc \<noteq> Some ''generate_image'' \<longrightarrow>
      call_text env vars fc = unknown_function_text (fc_name fc) \<and>
      call_text env vars fc =
        [CHR 0x0A, CHR 0x0A, CHR 0xE2, CHR 0x9D, CHR 0x8C] @
        '' **Function Error:** Unknown function: '' @
        (case fc_name fc of Some n \<Rightarrow> n | None \<Rightarrow> ''undefined'')) \<and>
   (fc \<in> set fcs \<longrightarrow> fc_name fc = Some ''generate_image'' \<longrightarrow>
    fst (generate_image_try env vars fc []) = Inl e \<longrightarrow>
      sublist ([CHR 0x0A, CHR 0x0A, CHR 0xE2, CHR 0x9D, CHR 0x8C] @
               '' **Function Execution Error:** Error executing generate_image function: '' @
               (case e of
                  Error m \<Rightarrow> m
                | TypeError p \<Rightarrow> engine_message env (TypeError p)
                | SyntaxError t \<Rightarrow> engine_message env (SyntaxError t)))
        (fst (fst (processFunctionCalls env vars fcs snk)))) \<and>
   (case snd (snd (finish env d a mgr)) of
      CompleteResponse txt u f \<Rightarrow>
        txt = fullResponse a @
          fst (fst (processFunctionCalls env (variables d) (functionCalls a) (sink a)))
    | SendError m \<Rightarrow> False)"
proof -
  let ?r = "fst (fst (processFunctionCalls env vars fcs snk))"
  have r: "?r = concat (map (call_text env vars) fcs)"
    by (simp add: processFunctionCalls_result)
  have s: "sublist (call_text env vars fc) ?r" if "fc \<in> set fcs"
    unfolding r using that by (rule sublist_concat_member)
  have l: "call_text env vars fc =
        [CHR 0x0A, CHR 0x0A, CHR 0xE2, CHR 0x9D, CHR 0x8C] @
        '' **Function Execution Error:** Error executing generate_image function: '' @
        (case e of
           Error m \<Rightarrow> m
         | TypeError p \<Rightarrow> engine_message env (TypeError p)
         | SyntaxError t \<Rightarrow> engine_message env (SyntaxError t))"
    if "fc_name fc = Some ''generate_image''" "fst (generate_image_try env vars fc []) = Inl e"
    using that by (rule call_text_thrown_literal)
  have sl: "sublist ([CHR 0x0A, CHR 0x0A, CHR 0xE2, CHR 0x9D, CHR 0x8C] @
               '' **Function Execution Error:** Error executing generate_image function: '' @
               (case e of
                  Error m \<Rightarrow> m
                | TypeError p \<Rightarrow> engine_message env (TypeError p)
                | SyntaxError t \<Rightarrow> engine_message env (SyntaxError t))) ?r"
    if "fc \<in> set fcs" "fc_name fc = Some ''generate_image''"
      "fst (generate_image_try env vars fc []) = Inl e"
    using s [OF that(1)] unfolding l [OF that(2,3)] .
  have f: "(case snd (snd (finish env d a mgr)) of
      CompleteResponse txt u f \<Rightarrow>
        txt = fullResponse a @
          fst (fst (processFunctionCalls env (variables d) (functionCalls a) (sink a)))
    | SendError m \<Rightarrow> False)"
    by (simp add: processFunctionCalls_result finish_completes)
  have e: "snd (processFunctionCalls env vars fcs snk)
             = snk @ concat (map (call_emissions env vars) fcs)"
    by (simp add: processFunctionCalls_result)
  show ?thesis
    using r e s l sl f call_text_thrown [of fc env vars e] call_text_unknown [of fc env vars]
      call_text_unknown_literal [of fc env vars]
    by blast
qed

theorem tool_failure_contained_witness:
  "fst (generate_image_try sample_env [(''OPENAI_API_KEY'', ''sk-1'')]
          \<lparr>fc_id = Some ''c1'', fc_name = Some ''generate_image'', fc_arguments = ''{''\<rparr> [])
     = Inl (SyntaxError ''{'') \<and>
   processFunctionCalls sample_env [(''OPENAI_API_KEY'', ''sk-1'')]
       [\<lparr>fc_id = Some ''c1'', fc_name = Some ''generate_image'', fc_arguments = ''{''\<rparr>,
        \<lparr>fc_id = Some ''c2'', fc_name = Some ''get_weather'', fc_arguments = ''{}''\<rparr>,
        \<lparr>fc_id = Some ''c3'', fc_name = Some ''generate_image'',
         fc_arguments = ''{\"prompt\":\"a cat\"}''\<rparr>] []
     = (([CHR 0x0A, CHR 0x0A, CHR 0xE2, CHR 0x9D, CHR 0x8C] @
         '' **Function Execution Error:** Error executing generate_image function: '' @
         ''Unexpected end of JSON input'' @
         [CHR 0x0A, CHR 0x0A, CHR 0xE2, CHR 0x9D, CHR 0x8C] @
         '' **Function Error:** Unknown function: get_weather'' @
         imageResult_text sample_env (JObject [(''prompt'', JString ''a cat'')])
           ''https://images.example/1.png'',
         Some ''https://images.example/1.png''),
        [Processing (Some ''generate_image''),
         Processing (Some ''get_weather''),
         Processing (Some ''generate_image''), Executing, LoadingStart, LoadingEnd, Completed,
         ImageResult (imageResult_text sample_env (JObject [(''prompt'', JString ''a cat'')])
           ''https://images.example/1.png'')])"
proof -
  let ?vars = "[(''OPENAI_API_KEY'', ''sk-1'')]"
  let ?bad = "\<lparr>fc_id = Some ''c1'', fc_name = Some ''generate_image'', fc_arguments = ''{''\<rparr>"
  let ?other = "\<lparr>fc_id = Some ''c2'', fc_name = Some ''get_weather'', fc_arguments = ''{}''\<rparr>"
  let ?good = "\<lparr>fc_id = Some ''c3'', fc_name = Some ''generate_image'',
         fc_arguments = ''{\"prompt\":\"a cat\"}''\<rparr>"
  let ?fcs = "[?bad, ?other, ?good]"
  let ?args = "JObject [(''prompt'', JString ''a cat'')]"
  have p: "JSON_parse ''{\"prompt\":\"a cat\"}'' = Some ?args" by (simp add: json_eval)
  have 3: "fst (generate_image_try sample_env ?vars ?bad []) = Inl (SyntaxError ''{'')"
    by (simp add: generate_image_try_def parse_open_brace)
  have g: "executeFunctionCall sample_env ?vars ?good []
      = ((imageResult_text sample_env ?args ''https://images.example/1.png'',
          Some ''https://images.example/1.png''),
         [Processing (Some ''generate_image''), Executing, LoadingStart, LoadingEnd, Completed,
          ImageResult (imageResult_text sample_env ?args ''https://images.example/1.png'')])"
    by (simp add: handler_eval p Let_def sample_env_def)
  have b: "snd (executeFunctionCall sample_env ?vars ?bad []) = [Processing (Some ''generate_image'')]"
    by (simp add: handler_eval parse_open_brace Let_def)
  have o: "snd (executeFunctionCall sample_env ?vars ?other []) = [Processing (Some ''get_weather'')]"
    by (simp add: handler_eval Let_def)
  have u: "snd (fst (processFunctionCalls sample_env ?vars ?fcs []))
             = Some ''https://images.example/1.png''"
    by (simp add: handler_eval parse_open_brace p Let_def sample_env_def)
  have m: "engine_message sample_env (SyntaxError ''{'') = ''Unexpected end of JSON input''"
    by (simp add: sample_env_def)
  note T1 = tool_failure_contained [where env = sample_env and vars = ?vars and fcs = ?fcs
      and snk = "[]" and fc = ?bad and e = "SyntaxError ''{''" and d = sample_request
      and a = init_assembly and mgr = "new_manager 10"]
  note T2 = tool_failure_contained [where env = sample_env and vars = ?vars and fcs = ?fcs
      and snk = "[]" and fc = ?other and e = "SyntaxError ''{''" and d = sample_request
      and a = init_assembly and mgr = "new_manager 10"]
  have n: "fc_name ?bad = Some ''generate_image''" "fc_name ?other \<noteq> Some ''generate_image''"
    by simp_all
  from T1 3 n(1) have "call_text sample_env ?vars ?bad =
      [CHR 0x0A, CHR 0x0A, CHR 0xE2, CHR 0x9D, CHR 0x8C] @
      '' **Function Execution Error:** Error executing generate_image function: '' @
      (case SyntaxError ''{'' of
         Error m \<Rightarrow> m
       | TypeError p \<Rightarrow> engine_message sample_env (TypeError p)
       | SyntaxError t \<Rightarrow> engine_message sample_env (SyntaxError t))"
    by blast
  then have ctb: "call_text sample_env ?vars ?bad =
      [CHR 0x0A, CHR 0x0A, CHR 0xE2, CHR 0x9D, CHR 0x8C] @
      '' **Function Execution Error:** Error executing generate_image function: '' @
      ''Unexpected end of JSON input''"
    by (simp add: m)
  from T2 n(2) have "call_text sample_env ?vars ?other =
      [CHR 0x0A, CHR 0x0A, CHR 0xE2, CHR 0x9D, CHR 0x8C] @
      '' **Function Error:** Unknown function: '' @
      (case fc_name ?other of Some n \<Rightarrow> n | None \<Rightarrow> ''undefined'')"
    by blast
  then have cto: "call_text sample_env ?vars ?other =
      [CHR 0x0A, CHR 0x0A, CHR 0xE2, CHR 0x9D, CHR 0x8C] @
      '' **Function Error:** Unknown function: get_weather''"
    by simp
  have ctg: "call_text sample_env ?vars ?good =
      imageResult_text sample_env ?args ''https://images.example/1.png''"
    by (simp add: call_text_def g)
  have ceb: "call_emissions sample_env ?vars ?bad = [Processing (Some ''generate_image'')]"
    by (simp add: call_emissions_def b)
  have ceo: "call_emissions sample_env ?vars ?other = [Processing (Some ''get_weather'')]"
    by (simp add: call_emissions_def o)
  have ceg: "call_emissions sample_env ?vars ?good =
      [Processing (Some ''generate_image''), Executing, LoadingStart, LoadingEnd, Completed,
       ImageResult (imageResult_text sample_env ?args ''https://images.example/1.png'')]"
    by (simp add: call_emissions_def g)
  have R: "fst (fst (processFunctionCalls sample_env ?vars ?fcs []))
          = [CHR 0x0A, CHR 0x0A, CHR 0xE2, CHR 0x9D, CHR 0x8C] @
            '' **Function Execution Error:** Error executing generate_image function: '' @
            ''Unexpected end of JSON input'' @
            [CHR 0x0A, CHR 0x0A, CHR 0xE2, CHR 0x9D, CHR 0x8C] @
            '' **Function Error:** Unknown function: get_weather'' @
            imageResult_text sample_env ?args ''https://images.example/1.png''"
    using T1 [THEN conjunct1] by (simp add: ctb cto ctg)
  have E: "snd (processFunctionCalls sample_env ?vars ?fcs [])
          = [Processing (Some ''generate_image''),
             Processing (Some ''get_weather''),
             Processing (Some ''generate_image''), Executing, LoadingStart, LoadingEnd, Completed,
             ImageResult (imageResult_text sample_env ?args ''https://images.example/1.png'')]"
    using T1 [THEN conjunct2, THEN conjunct1] by (simp add: ceb ceo ceg)
  show ?thesis
    using R E u 3 by (simp add: prod_eq_iff)
qed

end
